theory Spec2Isabelle
  imports Complex_Main "HOL-Library.Char_ord" "HOL-Library.List_Lexorder" "HOL-Library.AList"
begin

section \<open>Cell values, errors and the state of an \<open>Excel\<close> object\<close>

text \<open>
  A cell of the worksheet (and of the pandas data frame built from it) holds a Python
  \<open>float\<close>, a \<open>str\<close> or \<open>None\<close>. A finite float is modelled by the real number it
  denotes; comparisons of floats are exact, so no rounding is involved in what follows.
  The "NA" sentinel of the report is the string \<open>'NA'\<close>, which is a \<open>Text\<close>
  cell and is different from an empty cell. An empty cell is \<open>None\<close>, which cannot
  be ordered against a number (pandas shows the empty cell of a column that holds
  nothing but numbers as NaN, which compares false instead; no statement below is about
  the comparison of an empty cell).
\<close>

datatype cell = Number real | Text string | Empty

datatype error =
    TypeError string
  | KeyError
  | UnboundLocalError
  | ValueError
  | FileNotFoundError

definition cmp_msg :: string where
  "cmp_msg = ''comparison not supported between instances''"

definition false_msg :: string where
  "false_msg = ''FALSE string found outside expected row.''"

text \<open>
  Python's \<open><\<close> and \<open>></\<close> on cell values: two floats compare as numbers, two strings
  lexicographically by character code, every other pair raises \<open>TypeError\<close>.
\<close>

fun py_lt :: "cell \<Rightarrow> cell \<Rightarrow> error + bool" where
  "py_lt (Number a) (Number b) = Inr (a < b)"
| "py_lt (Text s) (Text t) = Inr (s < t)"
| "py_lt _ _ = Inl (TypeError cmp_msg)"

definition py_gt :: "cell \<Rightarrow> cell \<Rightarrow> error + bool" where
  "py_gt a b = py_lt b a"

text \<open>\<open>a or b\<close> on two comparisons: \<open>b\<close> is evaluated only when \<open>a\<close> is false.\<close>

definition py_or :: "error + bool \<Rightarrow> error + bool \<Rightarrow> error + bool" where
  "py_or a b = (case a of Inl e \<Rightarrow> Inl e | Inr True \<Rightarrow> Inr True | Inr False \<Rightarrow> b)"

text \<open>
  The data frame \<open>pd.DataFrame(self.ws.values)\<close> is a list of rows; pandas pads short
  rows with missing values up to the longest row, which \<open>len_columns\<close> and \<open>cell_at\<close>
  reproduce. Rows and columns are labelled \<open>0, 1, 2, ...\<close>.
\<close>

type_synonym dataframe = "cell list list"

definition len_columns :: "dataframe \<Rightarrow> nat" where
  "len_columns d = fold (\<lambda>row n. max (length row) n) d 0"

definition cell_at :: "dataframe \<Rightarrow> nat \<Rightarrow> nat \<Rightarrow> cell" where
  "cell_at d r c = (if c < length (d ! r) then d ! r ! c else Empty)"

text \<open>\<open>self.df.loc[row][col]\<close>: a label that is not in the frame raises \<open>KeyError\<close>.\<close>

definition df_loc :: "dataframe \<Rightarrow> nat \<Rightarrow> nat \<Rightarrow> error + cell" where
  "df_loc d r c = (if r < length d \<and> c < len_columns d then Inr (cell_at d r c) else Inl KeyError)"

text \<open>
  \<open>self.df.stack().index[self.df.stack() == s]\<close>: the (row, column) labels of the cells
  equal to the string \<open>s\<close>, row by row and left to right within a row.
\<close>

definition stack_index_eq :: "dataframe \<Rightarrow> string \<Rightarrow> (nat \<times> nat) list" where
  "stack_index_eq d s =
     [(r, c). r \<leftarrow> [0..<length d], c \<leftarrow> [0..<len_columns d], cell_at d r c = Text s]"

text \<open>
  The worksheet \<open>self.ws\<close> is openpyxl's dictionary from (row, column), both counted
  from 1, to the cell stored there. \<open>highlighted\<close> is the set of cells, as
  (column, row), that carry \<open>RED_FILL\<close> and \<open>RED_TEXT\<close>; \<open>file_on_disk\<close> tells
  whether the file \<open>self.file\<close> exists.
\<close>

type_synonym worksheet = "((nat \<times> nat) \<times> cell) list"

record excel =
  ws :: worksheet
  df :: dataframe
  highlighted :: "(nat \<times> nat) set"
  file_on_disk :: bool

text \<open>
  \<open>get_column_letter\<close> of openpyxl turns a column number between 1 and 18278 into
  its letters (A ... ZZZ) and raises \<open>ValueError\<close> for any other number. The letters
  are in one-to-one correspondence with the numbers, and the model keeps the number.
\<close>

definition get_column_letter :: "int \<Rightarrow> error + nat" where
  "get_column_letter idx = (if 1 \<le> idx \<and> idx \<le> 18278 then Inr (nat idx) else Inl ValueError)"

definition highlight_cell :: "nat \<Rightarrow> nat \<Rightarrow> excel \<Rightarrow> excel" where
  "highlight_cell xl_col xl_row x = x\<lparr>highlighted := insert (xl_col, xl_row) (highlighted x)\<rparr>"

text \<open>
  A \<open>for\<close> loop whose body may raise: the loop stops at the first exception, and the
  state reached so far is kept beside the error.
\<close>

fun for_each :: "('a \<Rightarrow> 's \<Rightarrow> error option \<times> 's) \<Rightarrow> 'a list \<Rightarrow> 's \<Rightarrow> error option \<times> 's" where
  "for_each body [] s = (None, s)"
| "for_each body (a # as) s =
     (case body a s of
        (None, s') \<Rightarrow> for_each body as s'
      | (Some e, s') \<Rightarrow> (Some e, s'))"

section \<open>\<open>mark_other_metrics\<close>\<close>

definition metrics_to_find :: "string list" where
  "metrics_to_find =
     [''MEDIAN_INSERT_SIZE (bp)'',
      ''MEDIAN_EXON_COVERAGE (Count)'',
      ''PCT_EXON_50X (%)'',
      ''USABLE_MSI_SITES (Count)'',
      ''COVERAGE_MAD (Count)'',
      ''MEDIAN_BIN_COUNT_CNV_TARGET (Count)'',
      ''MEDIAN_CV_GENE_500X (%)'',
      ''TOTAL_ON_TARGET_READS (Count)'',
      ''MEDIAN_INSERT_SIZE (Count)'']"

text \<open>
  The chain of tests on \<open>LSL\<close>, \<open>USL\<close> and \<open>sample_value\<close> (lines 193 to 210): the
  result tells whether the cell is highlighted, or which exception the comparison raised.
\<close>

definition other_metric_outside :: "cell \<Rightarrow> cell \<Rightarrow> cell \<Rightarrow> error + bool" where
  "other_metric_outside LSL USL sample_value =
     (if LSL = Text ''NA'' \<and> USL = Text ''NA'' then Inr False
      else if LSL = Text ''NA'' \<and> sample_value \<noteq> Text ''NA'' then py_gt sample_value USL
      else if USL = Text ''NA'' \<and> sample_value \<noteq> Text ''NA'' then py_lt sample_value LSL
      else if sample_value \<noteq> Text ''NA''
        then py_or (py_lt sample_value LSL) (py_gt sample_value USL)
      else Inr False)"

text \<open>The body of \<open>for idx in indices\<close> for one sample column.\<close>

definition other_metric_idx :: "nat \<Rightarrow> nat \<times> nat \<Rightarrow> excel \<Rightarrow> error option \<times> excel" where
  "other_metric_idx sample_col_index idx x =
     (case df_loc (df x) (fst idx) (snd idx + 1) of
        Inl e \<Rightarrow> (Some e, x)
      | Inr LSL \<Rightarrow>
     (case df_loc (df x) (fst idx) (snd idx + 2) of
        Inl e \<Rightarrow> (Some e, x)
      | Inr USL \<Rightarrow>
     (case df_loc (df x) (fst idx) sample_col_index of
        Inl e \<Rightarrow> (Some e, x)
      | Inr sample_value \<Rightarrow>
     (case other_metric_outside LSL USL sample_value of
        Inl e \<Rightarrow> (Some e, x)
      | Inr False \<Rightarrow> (None, x)
      | Inr True \<Rightarrow>
     (case get_column_letter (int sample_col_index + 1) of
        Inl e \<Rightarrow> (Some e, x)
      | Inr xl_col \<Rightarrow> (None, highlight_cell xl_col (fst idx + 1) x))))))"

text \<open>The body of \<open>for metric in metrics_to_find\<close> for one sample column.\<close>

definition other_metric_loop :: "nat \<Rightarrow> string \<Rightarrow> excel \<Rightarrow> error option \<times> excel" where
  "other_metric_loop sample_col_index metric x =
     for_each (other_metric_idx sample_col_index) (stack_index_eq (df x) metric) x"

definition mark_other_metrics :: "excel \<Rightarrow> error option \<times> excel" where
  "mark_other_metrics x =
     for_each (\<lambda>sample_col_index. for_each (other_metric_loop sample_col_index) metrics_to_find)
       [3..<len_columns (df x)] x"

section \<open>\<open>mark_false\<close>\<close>

text \<open>\<open>os.remove(self.file)\<close>: deletes the file, or raises when there is none.\<close>

definition remove_file :: "excel \<Rightarrow> error option \<times> excel" where
  "remove_file x =
     (if file_on_disk x then (None, x\<lparr>file_on_disk := False\<rparr>) else (Some FileNotFoundError, x))"

text \<open>The body of \<open>for idx in false_cells_indices\<close>.\<close>

definition mark_false_idx :: "nat \<times> nat \<Rightarrow> excel \<Rightarrow> error option \<times> excel" where
  "mark_false_idx idx x =
     (let xl_row = fst idx + 1 in
      if xl_row \<noteq> 17 then
        (case remove_file x of
           (Some e, x') \<Rightarrow> (Some e, x')
         | (None, x') \<Rightarrow> (Some (TypeError false_msg), x'))
      else
        (case get_column_letter (int (snd idx) + 1) of
           Inl e \<Rightarrow> (Some e, x)
         | Inr xl_col \<Rightarrow> (None, highlight_cell xl_col xl_row x)))"

definition mark_false :: "excel \<Rightarrow> error option \<times> excel" where
  "mark_false x = for_each mark_false_idx (stack_index_eq (df x) ''FALSE'') x"

section \<open>\<open>mark_contamination_metrics\<close>\<close>

definition elements_to_find :: "string list" where
  "elements_to_find = [''CONTAMINATION_SCORE (NA)'', ''CONTAMINATION_P_VALUE (NA)'']"

text \<open>
  The local variables of the method that are read after the loop that assigns them.
  They are not reset between iterations; \<open>None\<close> is a variable no assignment has
  reached yet, and reading it raises \<open>UnboundLocalError\<close>.
\<close>

record locals =
  value_to_compare :: "cell option"
  LSL :: "cell option"
  USL :: "cell option"
  sample_to_highlight :: "bool option"

definition no_locals :: locals where
  "no_locals = \<lparr>value_to_compare = None, LSL = None, USL = None, sample_to_highlight = None\<rparr>"

definition read_local :: "'a option \<Rightarrow> error + 'a" where
  "read_local v = (case v of None \<Rightarrow> Inl UnboundLocalError | Some a \<Rightarrow> Inr a)"

text \<open>The body of \<open>for idx in indices\<close> (lines 131 to 143); the state is the locals.\<close>

definition contamination_idx ::
  "dataframe \<Rightarrow> nat \<Rightarrow> nat \<times> nat \<Rightarrow> locals \<Rightarrow> error option \<times> locals" where
  "contamination_idx d sample_col_index idx l =
     (let row = fst idx; first_column = snd idx;
          LSL_column_index = first_column + 1; USL_column_index = first_column + 2 in
      case df_loc d row sample_col_index of
        Inl e \<Rightarrow> (Some e, l)
      | Inr v \<Rightarrow>
          (let l1 = l\<lparr>value_to_compare := Some v\<rparr> in
           if first_column = 0 then
             (case df_loc d row LSL_column_index of
                Inl e \<Rightarrow> (Some e, l1)
              | Inr lsl \<Rightarrow>
             (case df_loc d row USL_column_index of
                Inl e \<Rightarrow> (Some e, l1\<lparr>LSL := Some lsl\<rparr>)
              | Inr usl \<Rightarrow> (None, l1\<lparr>LSL := Some lsl, USL := Some usl\<rparr>)))
           else (None, l1)))"

text \<open>
  \<open>value_to_compare < LSL or value_to_compare > USL\<close> (line 149), each name read when
  Python reaches it.
\<close>

definition exceeds :: "locals \<Rightarrow> cell \<Rightarrow> error + bool" where
  "exceeds l v =
     (case read_local (LSL l) of
        Inl e \<Rightarrow> Inl e
      | Inr lsl \<Rightarrow>
     (case py_lt v lsl of
        Inl e \<Rightarrow> Inl e
      | Inr True \<Rightarrow> Inr True
      | Inr False \<Rightarrow>
     (case read_local (USL l) of
        Inl e \<Rightarrow> Inl e
      | Inr usl \<Rightarrow> py_gt v usl)))"

text \<open>
  The test after the inner loop (lines 147 to 153): the new locals and whether the
  loop over the elements is left by \<open>break\<close>.
\<close>

definition contamination_decide :: "locals \<Rightarrow> error + locals \<times> bool" where
  "contamination_decide l =
     (case read_local (value_to_compare l) of
        Inl e \<Rightarrow> Inl e
      | Inr v \<Rightarrow>
          if v = Text ''NA'' then Inr (l\<lparr>sample_to_highlight := Some False\<rparr>, False)
          else
            (case exceeds l v of
               Inl e \<Rightarrow> Inl e
             | Inr True \<Rightarrow> Inr (l\<lparr>sample_to_highlight := Some True\<rparr>, False)
             | Inr False \<Rightarrow> Inr (l\<lparr>sample_to_highlight := Some False\<rparr>, True)))"

text \<open>\<open>for element in elements_to_find\<close> (lines 129 to 153), with its \<open>break\<close>.\<close>

fun contamination_elements ::
  "dataframe \<Rightarrow> nat \<Rightarrow> string list \<Rightarrow> locals \<Rightarrow> error option \<times> locals" where
  "contamination_elements d sample_col_index [] l = (None, l)"
| "contamination_elements d sample_col_index (element # rest) l =
     (case for_each (contamination_idx d sample_col_index) (stack_index_eq d element) l of
        (Some e, l1) \<Rightarrow> (Some e, l1)
      | (None, l1) \<Rightarrow>
          (case contamination_decide l1 of
             Inl e \<Rightarrow> (Some e, l1)
           | Inr (l2, True) \<Rightarrow> (None, l2)
           | Inr (l2, False) \<Rightarrow> contamination_elements d sample_col_index rest l2))"

text \<open>The body of the highlighting loop (lines 159 to 162).\<close>

definition contamination_highlight_idx ::
  "nat \<Rightarrow> nat \<times> nat \<Rightarrow> excel \<Rightarrow> error option \<times> excel" where
  "contamination_highlight_idx sample_col_index idx x =
     (let xl_row = fst idx + 1 in
      case get_column_letter (int sample_col_index + 1) of
        Inl e \<Rightarrow> (Some e, x)
      | Inr xl_col \<Rightarrow> (None, highlight_cell xl_col xl_row x))"

text \<open>The two loops under \<open>if sample_to_highlight is True\<close> (lines 157 to 162).\<close>

definition contamination_highlight :: "nat \<Rightarrow> excel \<Rightarrow> error option \<times> excel" where
  "contamination_highlight sample_col_index x =
     for_each (\<lambda>element x'.
         for_each (contamination_highlight_idx sample_col_index) (stack_index_eq (df x') element) x')
       elements_to_find x"

text \<open>The body of \<open>for sample_col_index in range(3, len(self.df.columns))\<close>.\<close>

definition contamination_sample ::
  "nat \<Rightarrow> locals \<times> excel \<Rightarrow> error option \<times> locals \<times> excel" where
  "contamination_sample sample_col_index s =
     (case s of (l, x) \<Rightarrow>
       (case contamination_elements (df x) sample_col_index elements_to_find l of
          (Some e, l1) \<Rightarrow> (Some e, (l1, x))
        | (None, l1) \<Rightarrow>
            (case read_local (sample_to_highlight l1) of
               Inl e \<Rightarrow> (Some e, (l1, x))
             | Inr False \<Rightarrow> (None, (l1, x))
             | Inr True \<Rightarrow>
                 (case contamination_highlight sample_col_index x of
                    (r, x1) \<Rightarrow> (r, (l1, x1))))))"

definition mark_contamination_metrics :: "excel \<Rightarrow> error option \<times> excel" where
  "mark_contamination_metrics x =
     (case for_each contamination_sample [3..<len_columns (df x)] (no_locals, x) of
        (r, (l, x')) \<Rightarrow> (r, x'))"

section \<open>The worksheet and \<open>move_rows\<close>\<close>

text \<open>
  The value of a worksheet cell is \<open>None\<close> where the dictionary has no cell.
  \<open>max_row\<close> and \<open>max_column\<close> are the largest row and column of a key of the
  dictionary, and 1 for an empty dictionary. \<open>ws_values\<close> is \<open>self.ws.values\<close>:
  the rows 1 to \<open>max_row\<close>, each with the columns 1 to \<open>max_column\<close>.
\<close>

definition value_of :: "worksheet \<Rightarrow> nat \<times> nat \<Rightarrow> cell" where
  "value_of w k = (case map_of w k of None \<Rightarrow> Empty | Some v \<Rightarrow> v)"

definition max_row :: "worksheet \<Rightarrow> nat" where
  "max_row w = (if w = [] then 1 else fold (\<lambda>k n. max (fst (fst k)) n) w 0)"

definition max_column :: "worksheet \<Rightarrow> nat" where
  "max_column w = (if w = [] then 1 else fold (\<lambda>k n. max (snd (fst k)) n) w 0)"

definition ws_values :: "worksheet \<Rightarrow> dataframe" where
  "ws_values w =
     [[value_of w (r, c). c \<leftarrow> [1..<max_column w + 1]]. r \<leftarrow> [1..<max_row w + 1]]"

text \<open>
  \<open>_move_cell\<close> of openpyxl with a column offset: the cell at (row, column), created
  empty if the dictionary has none, is stored under (row, column + offset) and its old
  key is deleted.
\<close>

definition move_cell :: "nat \<Rightarrow> nat \<times> nat \<Rightarrow> worksheet \<Rightarrow> worksheet" where
  "move_cell col_offset k w =
     AList.delete k (AList.update (fst k, snd k + col_offset) (value_of w k) w)"

text \<open>
  \<open>move_range\<close> of openpyxl for a move to the right (\<open>rows=0\<close>, \<open>cols>0\<close>): a
  range whose last column is left of its first one is refused with \<open>ValueError\<close>;
  otherwise the cells of the range are moved one at a time, the rightmost column first
  and each column from its top row down (\<open>range_cells\<close>).
\<close>

definition range_cells :: "nat \<Rightarrow> nat \<Rightarrow> nat \<Rightarrow> nat \<Rightarrow> (nat \<times> nat) list" where
  "range_cells min_col min_row max_col max_row' =
     [(row, col). col \<leftarrow> rev [min_col..<max_col + 1], row \<leftarrow> [min_row..<max_row' + 1]]"

definition move_range ::
  "nat \<Rightarrow> nat \<Rightarrow> nat \<Rightarrow> nat \<Rightarrow> nat \<Rightarrow> worksheet \<Rightarrow> error + worksheet" where
  "move_range min_col min_row max_col max_row' cols w =
     (if max_col < min_col \<or> max_row' < min_row then Inl ValueError
      else Inr (fold (move_cell cols) (range_cells min_col min_row max_col max_row') w))"

definition move_rows :: "excel \<Rightarrow> error option \<times> excel" where
  "move_rows x =
     (case get_column_letter (int (max_column (ws x)) - 2) of
        Inl e \<Rightarrow> (Some e, x)
      | Inr max_col \<Rightarrow>
          (case move_range 2 16 max_col 19 2 (ws x) of
             Inl e \<Rightarrow> (Some e, x)
           | Inr w \<Rightarrow> (None, x\<lparr>ws := w, df := ws_values w\<rparr>)))"

text \<open>\<open>modify\<close>: the four passes in order, then \<open>self.wb.save(self.file)\<close>.\<close>

definition then_do ::
  "error option \<times> 's \<Rightarrow> ('s \<Rightarrow> error option \<times> 's) \<Rightarrow> error option \<times> 's" where
  "then_do r f = (case r of (None, s) \<Rightarrow> f s | (Some e, s) \<Rightarrow> (Some e, s))"

definition modify :: "excel \<Rightarrow> error option \<times> excel" where
  "modify x =
     then_do (then_do (then_do (then_do (move_rows x) mark_false) mark_contamination_metrics)
       mark_other_metrics) (\<lambda>x'. (None, x'\<lparr>file_on_disk := True\<rparr>))"

section \<open>The field conversion of \<open>tsv_to_excel\<close>\<close>

text \<open>
  The characters \<open>int()\<close> and \<open>float()\<close> skip at both ends of their
  argument (the ASCII characters for which \<open>str.isspace\<close> holds).
\<close>

definition py_isspace :: "char \<Rightarrow> bool" where
  "py_isspace c \<longleftrightarrow>
     c \<in> set [CHR 0x09, CHR 0x0A, CHR 0x0B, CHR 0x0C, CHR 0x0D,
               CHR 0x1C, CHR 0x1D, CHR 0x1E, CHR 0x1F, CHR '' '']"

definition strip :: "string \<Rightarrow> string" where
  "strip s = rev (dropWhile py_isspace (rev (dropWhile py_isspace s)))"

text \<open>
  The argument of \<open>int()\<close> in base 10, after the whitespace and an optional sign: a
  \<open>digitpart\<close>, that is digits with single underscores allowed between two digits.
\<close>

definition is_digit :: "char \<Rightarrow> bool" where
  "is_digit c \<longleftrightarrow> c \<in> set ''0123456789''"

fun drop_sign :: "string \<Rightarrow> string" where
  "drop_sign [] = []"
| "drop_sign (c # cs) = (if c = CHR ''+'' \<or> c = CHR ''-'' then cs else c # cs)"

fun digitpart :: "string \<Rightarrow> bool" where
  "digitpart [] = False"
| "digitpart [c] = is_digit c"
| "digitpart (c # d # cs) =
     (is_digit c \<and> (if d = CHR ''_'' then digitpart cs else digitpart (d # cs)))"

definition int_literal :: "string \<Rightarrow> bool" where
  "int_literal s = digitpart (drop_sign (strip s))"

text \<open>
  The argument of \<open>float()\<close>, after the whitespace and an optional sign, following
  the grammar of the language reference:
  \<^verbatim>\<open>number ::= [digitpart] "." digitpart | digitpart ["."]\<close>,
  \<^verbatim>\<open>exponent ::= ("e" | "E") [sign] digitpart\<close>,
  \<^verbatim>\<open>floatnumber ::= number [exponent]\<close>, or one of the words \<open>inf\<close>,
  \<open>infinity\<close> and \<open>nan\<close> in any case.
\<close>

definition number_literal :: "string \<Rightarrow> bool" where
  "number_literal s =
     (let whole = takeWhile (\<lambda>c. c \<noteq> CHR ''.'') s; rest = dropWhile (\<lambda>c. c \<noteq> CHR ''.'') s in
      if rest = [] then digitpart whole
      else (whole = [] \<and> digitpart (tl rest)) \<or>
           (digitpart whole \<and> (tl rest = [] \<or> digitpart (tl rest))))"

definition is_e :: "char \<Rightarrow> bool" where
  "is_e c \<longleftrightarrow> c = CHR ''e'' \<or> c = CHR ''E''"

definition floatnumber :: "string \<Rightarrow> bool" where
  "floatnumber s =
     (let mantissa = takeWhile (\<lambda>c. \<not> is_e c) s; rest = dropWhile (\<lambda>c. \<not> is_e c) s in
      number_literal mantissa \<and> (rest = [] \<or> digitpart (drop_sign (tl rest))))"

definition same_word :: "string \<Rightarrow> (char \<times> char) list \<Rightarrow> bool" where
  "same_word s w = list_all2 (\<lambda>c p. c = fst p \<or> c = snd p) s w"

definition infinity_or_nan :: "string \<Rightarrow> bool" where
  "infinity_or_nan s \<longleftrightarrow>
     same_word s (zip ''inf'' ''INF'') \<or> same_word s (zip ''infinity'' ''INFINITY'') \<or>
     same_word s (zip ''nan'' ''NAN'')"

definition float_literal :: "string \<Rightarrow> bool" where
  "float_literal s = (let t = drop_sign (strip s) in infinity_or_nan t \<or> floatnumber t)"

text \<open>
  \<open>float(item)\<close> and \<open>int(item)\<close> raise \<open>ValueError\<close> on a string that is
  not a literal. The number a literal denotes plays no role below and is a parameter.
\<close>

definition py_float :: "(string \<Rightarrow> 'f) \<Rightarrow> string \<Rightarrow> error + 'f" where
  "py_float float_value s = (if float_literal s then Inr (float_value s) else Inl ValueError)"

definition py_int :: "(string \<Rightarrow> int) \<Rightarrow> string \<Rightarrow> error + int" where
  "py_int int_value s = (if int_literal s then Inr (int_value s) else Inl ValueError)"

text \<open>
  The value appended to \<open>converted_row\<close> for one field (lines 253 to 262), and the
  conversion with two branches: a float where \<open>float()\<close> accepts the field, the field
  itself otherwise.
\<close>

datatype 'f converted = FloatItem 'f | IntItem int | StrItem string

definition convert_item :: "(string \<Rightarrow> 'f) \<Rightarrow> (string \<Rightarrow> int) \<Rightarrow> string \<Rightarrow> 'f converted" where
  "convert_item float_value int_value item =
     (case py_float float_value item of
        Inr x \<Rightarrow> FloatItem x
      | Inl e \<Rightarrow>
          (case py_int int_value item of
             Inr i \<Rightarrow> IntItem i
           | Inl e' \<Rightarrow> StrItem item))"

definition convert_item_two_branch :: "(string \<Rightarrow> 'f) \<Rightarrow> string \<Rightarrow> 'f converted" where
  "convert_item_two_branch float_value item =
     (if float_literal item then FloatItem (float_value item) else StrItem item)"

section \<open>Sets of cells a pass highlights\<close>

text \<open>
  Whether \<open>mark_other_metrics\<close> highlights for the label at \<open>idx\<close> in sample column
  \<open>sc\<close>, and the set of all cells (column, row) it highlights in a data frame.
\<close>

definition other_flag :: "dataframe \<Rightarrow> nat \<Rightarrow> nat \<times> nat \<Rightarrow> bool" where
  "other_flag d sc idx \<longleftrightarrow>
     other_metric_outside (cell_at d (fst idx) (snd idx + 1)) (cell_at d (fst idx) (snd idx + 2))
       (cell_at d (fst idx) sc) = Inr True"

definition other_flags :: "dataframe \<Rightarrow> (nat \<times> nat) set" where
  "other_flags d =
     {(sc + 1, r + 1) | sc r c m. 3 \<le> sc \<and> sc < len_columns d \<and> m \<in> set metrics_to_find \<and>
        (r, c) \<in> set (stack_index_eq d m) \<and> other_flag d sc (r, c)}"

text \<open>
  A float outside the limits (line 149 on floats), and the cells of the worksheet column
  that belongs to a sample column of the data frame.
\<close>

definition outside :: "real \<Rightarrow> real \<Rightarrow> real \<Rightarrow> bool" where
  "outside v L U \<longleftrightarrow> v < L \<or> v > U"

definition column_cells :: "nat \<Rightarrow> (nat \<times> nat) set" where
  "column_cells s = {(s + 1, r) | r. True}"

text \<open>The key a cell has after a move by \<open>n\<close> columns to the right.\<close>

definition shift_right :: "nat \<Rightarrow> nat \<times> nat \<Rightarrow> nat \<times> nat" where
  "shift_right n k = (fst k, snd k + n)"

text \<open>The worksheet \<open>move_rows\<close> leaves behind when it completes.\<close>

definition moved :: "worksheet \<Rightarrow> worksheet" where
  "moved w = fold (move_cell 2) (range_cells 2 16 (max_column w - 2) 19) w"

section \<open>Example reports\<close>

text \<open>One metric row with limits 100 and 500 and the sample values 50, 300 and 600.\<close>

definition scenario_insert_size :: excel where
  "scenario_insert_size =
     \<lparr>ws = [],
      df = [[Text ''MEDIAN_INSERT_SIZE (bp)'', Number 100, Number 500,
             Number 50, Number 300, Number 600]],
      highlighted = {}, file_on_disk = True\<rparr>"

text \<open>A metric row whose lower limit is above its upper limit.\<close>

definition reversed_limits :: excel where
  "reversed_limits =
     \<lparr>ws = [],
      df = [[Text ''MEDIAN_INSERT_SIZE (bp)'', Number 5, Number 3, Number 5]],
      highlighted = {}, file_on_disk = True\<rparr>"

text \<open>Metric rows with one limit, or both, set to \<open>'NA'\<close>.\<close>

definition one_sided_limits :: excel where
  "one_sided_limits =
     \<lparr>ws = [],
      df = [[Text ''MEDIAN_EXON_COVERAGE (Count)'', Number 150, Text ''NA'', Number 100, Number 150],
            [Text ''COVERAGE_MAD (Count)'', Text ''NA'', Number 0.21, Number 0.3, Number 0.21],
            [Text ''PCT_EXON_50X (%)'', Text ''NA'', Text ''NA'', Number 1, Text ''abc'']],
      highlighted = {}, file_on_disk = True\<rparr>"

text \<open>A metric row with a sample cell that is text and not \<open>'NA'\<close>.\<close>

definition text_sample :: excel where
  "text_sample =
     \<lparr>ws = [],
      df = [[Text ''MEDIAN_INSERT_SIZE (bp)'', Number 100, Number 500, Text ''abc'', Number 600]],
      highlighted = {}, file_on_disk = True\<rparr>"

text \<open>
  The contamination rows with the limits 0.0 and 0.02: a first sample with the score in
  range and the p-value out of range, a second sample with both out of range.
\<close>

definition scenario_contamination :: excel where
  "scenario_contamination =
     \<lparr>ws = [],
      df = [[Text ''CONTAMINATION_SCORE (NA)'', Number 0, Number 0.02, Number 0.01, Number 0.05],
            [Text ''CONTAMINATION_P_VALUE (NA)'', Number 0, Number 0.02, Number 0.05, Number 0.05]],
      highlighted = {}, file_on_disk = True\<rparr>"

text \<open>The contamination rows with a score that is \<open>'NA'\<close> and a p-value out of range.\<close>

definition na_score :: excel where
  "na_score =
     \<lparr>ws = [],
      df = [[Text ''CONTAMINATION_SCORE (NA)'', Number 0, Number 0.02, Text ''NA''],
            [Text ''CONTAMINATION_P_VALUE (NA)'', Number 0, Number 0.02, Number 0.05]],
      highlighted = {}, file_on_disk = True\<rparr>"

text \<open>The contamination rows with a score out of range and a p-value that is \<open>'NA'\<close>.\<close>

definition na_p_value :: excel where
  "na_p_value =
     \<lparr>ws = [],
      df = [[Text ''CONTAMINATION_SCORE (NA)'', Number 0, Number 0.02, Number 0.05],
            [Text ''CONTAMINATION_P_VALUE (NA)'', Number 0, Number 0.02, Text ''NA'']],
      highlighted = {}, file_on_disk = True\<rparr>"

text \<open>
  A worksheet of three rows and four columns, and a worksheet whose row 16 holds six
  cells.
\<close>

definition short_sheet :: excel where
  "short_sheet =
     \<lparr>ws = [((1, 1), Text ''CONTAMINATION_SCORE (NA)''), ((1, 2), Number 0), ((1, 3), Number 0.02),
             ((1, 4), Number 0.01),
            ((2, 1), Text ''CONTAMINATION_P_VALUE (NA)''), ((2, 2), Number 0), ((2, 3), Number 0.02),
             ((2, 4), Number 0.01),
            ((3, 1), Text ''MEDIAN_INSERT_SIZE (bp)''), ((3, 2), Number 100), ((3, 3), Number 500),
             ((3, 4), Number 300)],
      df = [], highlighted = {}, file_on_disk = True\<rparr>"

definition status_block :: excel where
  "status_block =
     \<lparr>ws = [((16, 1), Text ''a''), ((16, 2), Text ''b''), ((16, 3), Text ''c''),
            ((16, 4), Text ''d''), ((16, 5), Text ''e''), ((16, 6), Text ''f'')],
      df = [], highlighted = {}, file_on_disk = True\<rparr>"

text \<open>A worksheet of twenty rows and three columns.\<close>

definition narrow_sheet :: excel where
  "narrow_sheet =
     \<lparr>ws = [((1, 1), Text ''a''), ((20, 3), Text ''c'')],
      df = [], highlighted = {}, file_on_disk = True\<rparr>"

text \<open>
  A status block with \<open>TRUE FALSE TRUE\<close> in row 17, and the same block one row
  above.
\<close>

definition blank_row :: "cell list" where
  "blank_row = [Empty, Empty, Empty]"

definition status_row_false :: excel where
  "status_row_false =
     \<lparr>ws = [],
      df = [blank_row, blank_row, blank_row, blank_row, blank_row, blank_row, blank_row, blank_row,
            blank_row, blank_row, blank_row, blank_row, blank_row, blank_row, blank_row, blank_row,
            [Text ''TRUE'', Text ''FALSE'', Text ''TRUE'']],
      highlighted = {}, file_on_disk = True\<rparr>"

definition row_above_false :: excel where
  "row_above_false =
     \<lparr>ws = [],
      df = [blank_row, blank_row, blank_row, blank_row, blank_row, blank_row, blank_row, blank_row,
            blank_row, blank_row, blank_row, blank_row, blank_row, blank_row, blank_row,
            [Text ''TRUE'', Text ''FALSE'', Text ''TRUE''], blank_row],
      highlighted = {}, file_on_disk = True\<rparr>"

text \<open>A worksheet with one metric row and none of the contamination labels.\<close>

definition insert_size_sheet :: excel where
  "insert_size_sheet =
     \<lparr>ws = [((1, 1), Text ''MEDIAN_INSERT_SIZE (bp)''), ((1, 2), Number 100),
            ((1, 3), Number 500), ((1, 4), Number 300)],
      df = [], highlighted = {}, file_on_disk = True\<rparr>"

text \<open>The contamination rows with a score cell that is text and not \<open>'NA'\<close>.\<close>

definition text_score :: excel where
  "text_score =
     \<lparr>ws = [],
      df = [[Text ''CONTAMINATION_SCORE (NA)'', Number 0, Number 0.02, Text ''abc''],
            [Text ''CONTAMINATION_P_VALUE (NA)'', Number 0, Number 0.02, Number 0.01]],
      highlighted = {}, file_on_disk = True\<rparr>"

section \<open>Loops and the index of a string\<close>

lemma for_each_invariant:
  assumes "\<And>a s. a \<in> set xs \<Longrightarrow> P s \<Longrightarrow> P (snd (body a s))" and "P s"
  shows "P (snd (for_each body xs s))"
  using assms
proof (induction xs arbitrary: s)
  case Nil
  then show ?case by simp
next
  case (Cons a xs)
  have pa: "P (snd (body a s))" using Cons.prems by simp
  show ?case
  proof (cases "body a s")
    case (Pair r s')
    with pa have ps': "P s'" by simp
    show ?thesis
    proof (cases r)
      case None
      with Pair have "for_each body (a # xs) s = for_each body xs s'" by simp
      moreover have "P (snd (for_each body xs s'))"
        using Cons.IH [of s'] Cons.prems(1) ps' by simp
      ultimately show ?thesis by simp
    next
      case (Some e)
      with Pair ps' show ?thesis by simp
    qed
  qed
qed

lemma for_each_collect:
  assumes step: "\<And>a s. a \<in> set xs \<Longrightarrow> I s \<Longrightarrow> fst (body a s) = None \<Longrightarrow>
                   I (snd (body a s)) \<and> H (snd (body a s)) = H s \<union> g a"
    and "I s" and "fst (for_each body xs s) = None"
  shows "I (snd (for_each body xs s)) \<and> H (snd (for_each body xs s)) = H s \<union> (\<Union>a\<in>set xs. g a)"
  using assms
proof (induction xs arbitrary: s)
  case Nil
  then show ?case by simp
next
  case (Cons a xs)
  show ?case
  proof (cases "body a s")
    case (Pair r s')
    show ?thesis
    proof (cases r)
      case None
      with Pair have eq: "for_each body (a # xs) s = for_each body xs s'" by simp
      from Pair None have "fst (body a s) = None" by simp
      with Cons.prems(1) [of a s] Cons.prems(2) Pair
      have s': "I s'" "H s' = H s \<union> g a" by auto
      have "fst (for_each body xs s') = None" using Cons.prems(3) eq by simp
      with Cons.IH [of s'] Cons.prems(1) s'(1)
      have "I (snd (for_each body xs s')) \<and> H (snd (for_each body xs s')) = H s' \<union> (\<Union>a\<in>set xs. g a)"
        by simp
      with eq s'(2) show ?thesis by auto
    next
      case (Some e)
      with Pair Cons.prems(3) show ?thesis by simp
    qed
  qed
qed

lemma for_each_complete:
  assumes "\<And>a s. a \<in> set xs \<Longrightarrow> I s \<Longrightarrow> fst (body a s) = None \<and> I (snd (body a s))"
    and "I s"
  shows "fst (for_each body xs s) = None \<and> I (snd (for_each body xs s))"
  using assms
proof (induction xs arbitrary: s)
  case Nil
  then show ?case by simp
next
  case (Cons a xs)
  show ?case
  proof (cases "body a s")
    case (Pair r s')
    from Cons.prems(1) [of a s] Cons.prems(2) Pair have "r = None" "I s'" by simp_all
    moreover from \<open>I s'\<close> have "fst (for_each body xs s') = None \<and> I (snd (for_each body xs s'))"
      using Cons.IH [of s'] Cons.prems(1) by simp
    ultimately show ?thesis using Pair by simp
  qed
qed

lemma for_each_error:
  assumes "a \<in> set xs"
    and "\<And>s. I s \<Longrightarrow> fst (body a s) \<noteq> None"
    and "\<And>b s. b \<in> set xs \<Longrightarrow> I s \<Longrightarrow> fst (body b s) = None \<Longrightarrow> I (snd (body b s))"
    and "I s"
  shows "fst (for_each body xs s) \<noteq> None"
  using assms
proof (induction xs arbitrary: s)
  case Nil
  then show ?case by simp
next
  case (Cons b xs)
  show ?case
  proof (cases "body b s")
    case (Pair r s')
    show ?thesis
    proof (cases r)
      case None
      with Pair have eq: "for_each body (b # xs) s = for_each body xs s'" by simp
      have "a \<noteq> b" using Cons.prems(2) [OF Cons.prems(4)] Pair None by auto
      then have ain: "a \<in> set xs" using Cons.prems(1) by simp
      have "I s'" using Cons.prems(3) [of b s] Cons.prems(4) Pair None by simp
      then have "fst (for_each body xs s') \<noteq> None"
        using Cons.IH [OF ain] Cons.prems(2,3) by simp
      with eq show ?thesis by simp
    next
      case (Some e)
      with Pair show ?thesis by simp
    qed
  qed
qed

lemma for_each_outcome:
  assumes "\<And>a s. a \<in> set xs \<Longrightarrow> I s \<Longrightarrow>
             fst (body a s) = None \<and> I (snd (body a s)) \<or> fst (body a s) = Some e \<and> F (snd (body a s))"
    and "I s"
  shows "fst (for_each body xs s) = None \<and> I (snd (for_each body xs s)) \<or>
         fst (for_each body xs s) = Some e \<and> F (snd (for_each body xs s))"
  using assms
proof (induction xs arbitrary: s)
  case Nil
  then show ?case by simp
next
  case (Cons a xs)
  show ?case
  proof (cases "body a s")
    case (Pair r s')
    from Cons.prems(1) [of a s] Cons.prems(2) Pair
    have step: "r = None \<and> I s' \<or> r = Some e \<and> F s'" by simp
    show ?thesis
    proof (cases r)
      case None
      with step have "I s'" by simp
      then have "fst (for_each body xs s') = None \<and> I (snd (for_each body xs s')) \<or>
                 fst (for_each body xs s') = Some e \<and> F (snd (for_each body xs s'))"
        using Cons.IH [of s'] Cons.prems(1) by simp
      with Pair None show ?thesis by simp
    next
      case (Some e')
      with step Pair show ?thesis by simp
    qed
  qed
qed

lemma set_stack_index_eq:
  "set (stack_index_eq d s) = {(r, c). r < length d \<and> c < len_columns d \<and> cell_at d r c = Text s}"
  by (auto simp: stack_index_eq_def)

lemma stack_index_eq_singleton:
  assumes "stack_index_eq d s = [(r, c)]"
  shows "r < length d" and "c < len_columns d" and "cell_at d r c = Text s"
proof -
  have "(r, c) \<in> set (stack_index_eq d s)" using assms by simp
  then show "r < length d" and "c < len_columns d" and "cell_at d r c = Text s"
    by (auto simp: set_stack_index_eq)
qed

section \<open>Properties of \<open>mark_other_metrics\<close>\<close>

lemma other_metric_idx_df: "df (snd (other_metric_idx sc idx x)) = df x"
  by (simp add: other_metric_idx_def highlight_cell_def split: sum.splits bool.splits)

lemma other_metric_idx_highlighted:
  "highlighted (snd (other_metric_idx sc idx x)) \<subseteq>
     highlighted x \<union> (if other_flag (df x) sc idx then {(sc + 1, fst idx + 1)} else {})"
  by (auto simp: other_metric_idx_def other_flag_def highlight_cell_def df_loc_def
      get_column_letter_def split: sum.splits bool.splits if_splits)

lemma other_metric_idx_step:
  assumes "fst (other_metric_idx sc idx x) = None"
  shows "highlighted (snd (other_metric_idx sc idx x)) =
           highlighted x \<union> (if other_flag (df x) sc idx then {(sc + 1, fst idx + 1)} else {})"
  using assms
  by (auto simp: other_metric_idx_def other_flag_def highlight_cell_def df_loc_def
      get_column_letter_def split: sum.splits bool.splits if_splits)

lemma other_metric_indices:
  assumes "df x = d" and "fst (for_each (other_metric_idx sc) idxs x) = None"
  shows "df (snd (for_each (other_metric_idx sc) idxs x)) = d \<and>
         highlighted (snd (for_each (other_metric_idx sc) idxs x)) =
           highlighted x \<union> (\<Union>idx\<in>set idxs. if other_flag d sc idx then {(sc + 1, fst idx + 1)} else {})"
proof (rule for_each_collect [where I = "\<lambda>s. df s = d" and H = highlighted])
  fix a s
  assume "df s = d" and "fst (other_metric_idx sc a s) = None"
  then show "df (snd (other_metric_idx sc a s)) = d \<and>
       highlighted (snd (other_metric_idx sc a s)) =
       highlighted s \<union> (if other_flag d sc a then {(sc + 1, fst a + 1)} else {})"
    using other_metric_idx_df [of sc a s] other_metric_idx_step [of sc a s] by simp
qed (use assms in simp_all)

lemma other_metric_metrics:
  assumes "df x = d" and "fst (for_each (other_metric_loop sc) ms x) = None"
  shows "df (snd (for_each (other_metric_loop sc) ms x)) = d \<and>
         highlighted (snd (for_each (other_metric_loop sc) ms x)) =
           highlighted x \<union> (\<Union>m\<in>set ms. \<Union>idx\<in>set (stack_index_eq d m).
              if other_flag d sc idx then {(sc + 1, fst idx + 1)} else {})"
proof (rule for_each_collect [where I = "\<lambda>s. df s = d" and H = highlighted])
  fix m s
  assume "df s = d" and "fst (other_metric_loop sc m s) = None"
  then show "df (snd (other_metric_loop sc m s)) = d \<and>
       highlighted (snd (other_metric_loop sc m s)) =
       highlighted s \<union> (\<Union>idx\<in>set (stack_index_eq d m).
              if other_flag d sc idx then {(sc + 1, fst idx + 1)} else {})"
    using other_metric_indices [of s d sc "stack_index_eq d m"]
    by (simp add: other_metric_loop_def)
qed (use assms in simp_all)

lemma mark_other_metrics_complete:
  assumes "fst (mark_other_metrics x) = None"
  shows "df (snd (mark_other_metrics x)) = df x \<and>
         highlighted (snd (mark_other_metrics x)) = highlighted x \<union> other_flags (df x)"
proof -
  let ?d = "df x"
  let ?g = "\<lambda>sc. (\<Union>m\<in>set metrics_to_find. \<Union>idx\<in>set (stack_index_eq ?d m).
              if other_flag ?d sc idx then {(sc + 1, fst idx + 1)} else {})"
  have "df (snd (mark_other_metrics x)) = ?d \<and>
        highlighted (snd (mark_other_metrics x)) =
          highlighted x \<union> (\<Union>sc\<in>set [3..<len_columns ?d]. ?g sc)"
    unfolding mark_other_metrics_def
  proof (rule for_each_collect [where I = "\<lambda>s. df s = ?d" and H = highlighted])
    fix sc s
    assume "df s = ?d" and "fst (for_each (other_metric_loop sc) metrics_to_find s) = None"
    then show "df (snd (for_each (other_metric_loop sc) metrics_to_find s)) = ?d \<and>
       highlighted (snd (for_each (other_metric_loop sc) metrics_to_find s)) = highlighted s \<union> ?g sc"
      using other_metric_metrics [of s ?d sc metrics_to_find] by simp
  qed (use assms in \<open>simp_all add: mark_other_metrics_def\<close>)
  moreover have "(\<Union>sc\<in>set [3..<len_columns ?d]. ?g sc) = other_flags ?d"
    unfolding other_flags_def by (auto split: if_splits) (blast, force)
  ultimately show ?thesis by simp
qed

lemma other_cell_flagged_iff:
  assumes complete: "fst (mark_other_metrics x) = None"
    and m: "m \<in> set metrics_to_find" and r: "r < length (df x)"
    and label: "cell_at (df x) r 0 = Text m"
    and only: "\<forall>c\<in>{1..<len_columns (df x)}. \<forall>m'\<in>set metrics_to_find. cell_at (df x) r c \<noteq> Text m'"
    and s: "3 \<le> s" "s < len_columns (df x)"
    and fresh: "(s + 1, r + 1) \<notin> highlighted x"
  shows "(s + 1, r + 1) \<in> highlighted (snd (mark_other_metrics x)) \<longleftrightarrow>
           other_metric_outside (cell_at (df x) r 1) (cell_at (df x) r 2) (cell_at (df x) r s) = Inr True"
proof -
  let ?d = "df x"
  have h: "highlighted (snd (mark_other_metrics x)) = highlighted x \<union> other_flags ?d"
    using mark_other_metrics_complete [OF complete] by simp
  have c0: "c = 0" if "m' \<in> set metrics_to_find" "(r, c) \<in> set (stack_index_eq ?d m')" for c m'
  proof (rule ccontr)
    assume "c \<noteq> 0"
    with that(2) have "c \<in> {1..<len_columns ?d}" "cell_at ?d r c = Text m'"
      by (auto simp: set_stack_index_eq)
    with only that(1) show False by blast
  qed
  have in0: "(r, 0) \<in> set (stack_index_eq ?d m)"
    using r label s by (auto simp: set_stack_index_eq)
  have "(s + 1, r + 1) \<in> other_flags ?d \<longleftrightarrow> other_flag ?d s (r, 0)"
  proof
    assume "(s + 1, r + 1) \<in> other_flags ?d"
    then obtain c m' where "m' \<in> set metrics_to_find" "(r, c) \<in> set (stack_index_eq ?d m')"
      "other_flag ?d s (r, c)"
      by (auto simp: other_flags_def)
    with c0 show "other_flag ?d s (r, 0)" by blast
  next
    assume "other_flag ?d s (r, 0)"
    with in0 m s show "(s + 1, r + 1) \<in> other_flags ?d"
      unfolding other_flags_def by blast
  qed
  with h fresh show ?thesis by (simp add: other_flag_def numeral_2_eq_2)
qed

lemma other_metric_outside_NA: "other_metric_outside L U (Text ''NA'') = Inr False"
  by (simp add: other_metric_outside_def)

lemma other_metric_outside_text:
  assumes "t \<noteq> ''NA''"
    and "(\<exists>a. L = Number a) \<and> ((\<exists>b. U = Number b) \<or> U = Text ''NA'') \<or>
         L = Text ''NA'' \<and> (\<exists>b. U = Number b)"
  shows "other_metric_outside L U (Text t) = Inl (TypeError cmp_msg)"
  using assms by (auto simp: other_metric_outside_def py_or_def py_gt_def)

lemma mark_other_metrics_keeps_NA_cell:
  assumes "cell_at (df x) r s = Text ''NA''" and "(s + 1, r + 1) \<notin> highlighted x"
  shows "(s + 1, r + 1) \<notin> highlighted (snd (mark_other_metrics x))"
proof -
  let ?d = "df x"
  let ?P = "\<lambda>y. df y = ?d \<and> (s + 1, r + 1) \<notin> highlighted y"
  have idx: "?P (snd (other_metric_idx sc idx y))" if "?P y" for sc idx y
  proof -
    have "\<not> other_flag ?d sc idx" if "sc = s" "fst idx = r"
      using that assms(1) by (simp add: other_flag_def other_metric_outside_NA)
    with \<open>?P y\<close> other_metric_idx_highlighted [of sc idx y] show ?thesis
      by (auto simp: other_metric_idx_df split: if_splits)
  qed
  have loop: "?P (snd (other_metric_loop sc m y))" if "?P y" for sc m y
    unfolding other_metric_loop_def
    by (rule for_each_invariant [where P = ?P]) (use idx that in blast)+
  have metrics: "?P (snd (for_each (other_metric_loop sc) metrics_to_find y))" if "?P y" for sc y
    by (rule for_each_invariant [where P = ?P]) (use loop that in blast)+
  have "?P (snd (mark_other_metrics x))"
    unfolding mark_other_metrics_def
    by (rule for_each_invariant [where P = ?P]) (use metrics assms(2) in blast)+
  then show ?thesis by simp
qed

lemma other_text_cell_aborts:
  assumes m: "m \<in> set metrics_to_find"
    and label: "r < length (df x)" "c < len_columns (df x)" "cell_at (df x) r c = Text m"
    and s: "3 \<le> s" "s < len_columns (df x)"
    and v: "cell_at (df x) r s = Text t" "t \<noteq> ''NA''"
    and lim: "(\<exists>a. cell_at (df x) r (c + 1) = Number a) \<and>
                ((\<exists>b. cell_at (df x) r (c + 2) = Number b) \<or> cell_at (df x) r (c + 2) = Text ''NA'') \<or>
              cell_at (df x) r (c + 1) = Text ''NA'' \<and> (\<exists>b. cell_at (df x) r (c + 2) = Number b)"
  shows "\<exists>e. fst (mark_other_metrics x) = Some e"
proof -
  let ?d = "df x"
  let ?I = "\<lambda>y. df y = ?d"
  have keep_idx: "?I (snd (other_metric_idx sc idx y))" if "?I y" for sc idx y
    using that by (simp add: other_metric_idx_df)
  have keep_loop: "?I (snd (other_metric_loop sc m' y))" if "?I y" for sc m' y
    unfolding other_metric_loop_def
    by (rule for_each_invariant [where P = ?I]) (use keep_idx that in blast)+
  have keep_metrics: "?I (snd (for_each (other_metric_loop sc) metrics_to_find y))" if "?I y" for sc y
    by (rule for_each_invariant [where P = ?I]) (use keep_loop that in blast)+
  have bad_idx: "fst (other_metric_idx s (r, c) y) \<noteq> None" if "?I y" for y
    using that other_metric_outside_text [OF v(2) lim] v(1)
    by (auto simp: other_metric_idx_def df_loc_def split: sum.splits bool.splits)
  have in_idx: "(r, c) \<in> set (stack_index_eq ?d m)"
    using label by (simp add: set_stack_index_eq)
  have bad_loop: "fst (other_metric_loop s m y) \<noteq> None" if "?I y" for y
    unfolding other_metric_loop_def
    by (rule for_each_error [where I = ?I and a = "(r, c)"])
       (use in_idx bad_idx keep_idx that in auto)
  have bad_metrics: "fst (for_each (other_metric_loop s) metrics_to_find y) \<noteq> None" if "?I y" for y
    by (rule for_each_error [where I = ?I and a = m]) (use m bad_loop keep_loop that in auto)
  have "fst (mark_other_metrics x) \<noteq> None"
    unfolding mark_other_metrics_def
    by (rule for_each_error [where I = ?I and a = s]) (use s bad_metrics keep_metrics in auto)
  then show ?thesis by auto
qed

section \<open>Properties of \<open>mark_contamination_metrics\<close>\<close>

lemma contamination_highlight_idx_frame:
  "df (snd (contamination_highlight_idx sc idx y)) = df y \<and>
   highlighted y \<subseteq> highlighted (snd (contamination_highlight_idx sc idx y)) \<and>
   highlighted (snd (contamination_highlight_idx sc idx y)) \<subseteq> highlighted y \<union> {(sc + 1, fst idx + 1)}"
  by (auto simp: contamination_highlight_idx_def highlight_cell_def get_column_letter_def
      split: sum.splits)

lemma contamination_highlight_frame:
  "df (snd (contamination_highlight sc x)) = df x \<and>
   highlighted x \<subseteq> highlighted (snd (contamination_highlight sc x)) \<and>
   highlighted (snd (contamination_highlight sc x)) \<subseteq> highlighted x \<union> {(sc + 1, r) | r. True}"
proof -
  let ?P = "\<lambda>y. df y = df x \<and> highlighted x \<subseteq> highlighted y \<and>
                 highlighted y \<subseteq> highlighted x \<union> {(sc + 1, r) | r. True}"
  have idx: "?P (snd (contamination_highlight_idx sc idx y))" if "?P y" for idx y
    using that contamination_highlight_idx_frame [of sc idx y] by auto
  have inner: "?P (snd (for_each (contamination_highlight_idx sc) idxs y))" if "?P y" for idxs y
    by (rule for_each_invariant [where P = ?P]) (use idx that in blast)+
  have "?P (snd (contamination_highlight sc x))"
    unfolding contamination_highlight_def
    by (rule for_each_invariant [where P = ?P]) (use inner in auto)
  then show ?thesis .
qed

lemma contamination_sample_frame:
  "df (snd (snd (contamination_sample sc (l, x)))) = df x \<and>
   highlighted x \<subseteq> highlighted (snd (snd (contamination_sample sc (l, x)))) \<and>
   highlighted (snd (snd (contamination_sample sc (l, x)))) \<subseteq> highlighted x \<union> {(sc + 1, r) | r. True}"
  using contamination_highlight_frame [of sc x]
  by (auto simp: contamination_sample_def
      split: prod.splits option.splits sum.splits bool.splits)

lemma contamination_elements_numeric:
  assumes score: "stack_index_eq d ''CONTAMINATION_SCORE (NA)'' = [(r1, 0)]"
    and p_value: "stack_index_eq d ''CONTAMINATION_P_VALUE (NA)'' = [(r2, 0)]"
    and s: "3 \<le> s" "s < len_columns d"
    and lim: "cell_at d r1 1 = Number L1" "cell_at d r1 2 = Number U1"
             "cell_at d r2 1 = Number L2" "cell_at d r2 2 = Number U2"
    and val: "cell_at d r1 s = Number v1" "cell_at d r2 s = Number v2"
  shows "fst (contamination_elements d s elements_to_find l) = None \<and>
         sample_to_highlight (snd (contamination_elements d s elements_to_find l)) =
           Some (outside v1 L1 U1 \<and> outside v2 L2 U2)"
proof -
  have r: "r1 < length d" "r2 < length d"
    using stack_index_eq_singleton(1) [OF score] stack_index_eq_singleton(1) [OF p_value] by auto
  have c: "Suc 0 < len_columns d" "Suc (Suc 0) < len_columns d" using s by auto
  show ?thesis
    using r c s lim val
    by (simp add: elements_to_find_def score p_value contamination_idx_def df_loc_def
        contamination_decide_def read_local_def exceeds_def py_gt_def outside_def numeral_2_eq_2
        split: bool.splits)
qed

lemma contamination_highlight_exact:
  assumes score: "stack_index_eq (df x) ''CONTAMINATION_SCORE (NA)'' = [(r1, 0)]"
    and p_value: "stack_index_eq (df x) ''CONTAMINATION_P_VALUE (NA)'' = [(r2, 0)]"
    and "fst (contamination_highlight s x) = None"
  shows "highlighted (snd (contamination_highlight s x)) =
           highlighted x \<union> {(s + 1, r1 + 1), (s + 1, r2 + 1)}"
  using assms
  by (auto simp: contamination_highlight_def elements_to_find_def contamination_highlight_idx_def
      highlight_cell_def get_column_letter_def split: sum.splits if_splits)

lemma contamination_sample_exact:
  assumes score: "stack_index_eq (df x) ''CONTAMINATION_SCORE (NA)'' = [(r1, 0)]"
    and p_value: "stack_index_eq (df x) ''CONTAMINATION_P_VALUE (NA)'' = [(r2, 0)]"
    and s: "3 \<le> s" "s < len_columns (df x)"
    and lim: "cell_at (df x) r1 1 = Number L1" "cell_at (df x) r1 2 = Number U1"
             "cell_at (df x) r2 1 = Number L2" "cell_at (df x) r2 2 = Number U2"
    and val: "cell_at (df x) r1 s = Number v1" "cell_at (df x) r2 s = Number v2"
    and complete: "fst (contamination_sample s (l, x)) = None"
  shows "highlighted (snd (snd (contamination_sample s (l, x)))) =
           highlighted x \<union>
           (if outside v1 L1 U1 \<and> outside v2 L2 U2 then {(s + 1, r1 + 1), (s + 1, r2 + 1)} else {})"
proof -
  obtain l1 where el: "contamination_elements (df x) s elements_to_find l = (None, l1)"
    and hl: "sample_to_highlight l1 = Some (outside v1 L1 U1 \<and> outside v2 L2 U2)"
    using contamination_elements_numeric [OF score p_value s lim val, of l]
    by (cases "contamination_elements (df x) s elements_to_find l") auto
  show ?thesis
  proof (cases "outside v1 L1 U1 \<and> outside v2 L2 U2")
    case True
    have "sample_to_highlight l1 = Some True" using hl True by simp
    then have eq: "contamination_sample s (l, x) =
                (fst (contamination_highlight s x), l1, snd (contamination_highlight s x))"
      by (simp add: contamination_sample_def el read_local_def split: prod.splits)
    with complete have "fst (contamination_highlight s x) = None" by simp
    from contamination_highlight_exact [OF score p_value this] True show ?thesis
      by (simp add: eq)
  next
    case False
    then have "sample_to_highlight l1 = Some False" using hl by simp
    then have "contamination_sample s (l, x) = (None, l1, x)"
      by (simp add: contamination_sample_def el read_local_def)
    with False show ?thesis by auto
  qed
qed

lemma mark_contamination_metrics_column:
  assumes score: "stack_index_eq (df x) ''CONTAMINATION_SCORE (NA)'' = [(r1, 0)]"
    and p_value: "stack_index_eq (df x) ''CONTAMINATION_P_VALUE (NA)'' = [(r2, 0)]"
    and s: "3 \<le> s" "s < len_columns (df x)"
    and lim: "cell_at (df x) r1 1 = Number L1" "cell_at (df x) r1 2 = Number U1"
             "cell_at (df x) r2 1 = Number L2" "cell_at (df x) r2 2 = Number U2"
    and val: "cell_at (df x) r1 s = Number v1" "cell_at (df x) r2 s = Number v2"
    and complete: "fst (mark_contamination_metrics x) = None"
  shows "highlighted (snd (mark_contamination_metrics x)) \<inter> column_cells s =
           highlighted x \<inter> column_cells s \<union>
           (if outside v1 L1 U1 \<and> outside v2 L2 U2 then {(s + 1, r1 + 1), (s + 1, r2 + 1)} else {})"
proof -
  let ?d = "df x"
  let ?I = "\<lambda>st. df (snd st) = ?d"
  let ?H = "\<lambda>st. highlighted (snd st) \<inter> column_cells s"
  let ?new = "if outside v1 L1 U1 \<and> outside v2 L2 U2 then {(s + 1, r1 + 1), (s + 1, r2 + 1)} else {}"
  let ?g = "\<lambda>a. if a = s then ?new else {}"
  let ?run = "for_each contamination_sample [3..<len_columns ?d] (no_locals, x)"
  have c: "fst ?run = None"
    using complete by (simp add: mark_contamination_metrics_def split: prod.splits)
  have "?I (snd ?run) \<and> ?H (snd ?run) = ?H (no_locals, x) \<union> (\<Union>a\<in>set [3..<len_columns ?d]. ?g a)"
  proof (rule for_each_collect [where I = ?I and H = ?H])
    fix a st
    assume I: "?I st" and ok: "fst (contamination_sample a st) = None"
    obtain l y where st: "st = (l, y)" by (cases st)
    with I have dy: "df y = ?d" by simp
    note frame = contamination_sample_frame [of a l y]
    have keep: "df (snd (snd (contamination_sample a (l, y)))) = ?d"
      using frame dy by simp
    have "highlighted (snd (snd (contamination_sample a (l, y)))) \<inter> column_cells s =
            highlighted y \<inter> column_cells s \<union> ?g a"
    proof (cases "a = s")
      case True
      have "highlighted (snd (snd (contamination_sample s (l, y)))) = highlighted y \<union> ?new"
        by (rule contamination_sample_exact [where x = y])
           (use dy score p_value s lim val ok st True in simp_all)
      moreover have "?new \<subseteq> column_cells s" by (auto simp: column_cells_def)
      ultimately show ?thesis using True by auto
    next
      case False
      then have "column_cells s \<inter> {(a + 1, r) | r. True} = {}"
        by (auto simp: column_cells_def)
      moreover from frame
      have "highlighted y \<subseteq> highlighted (snd (snd (contamination_sample a (l, y))))"
        and "highlighted (snd (snd (contamination_sample a (l, y)))) \<subseteq> highlighted y \<union> {(a + 1, r) | r. True}"
        by simp_all
      ultimately have "highlighted (snd (snd (contamination_sample a (l, y)))) \<inter> column_cells s =
            highlighted y \<inter> column_cells s"
        by blast
      with False show ?thesis by simp
    qed
    with keep show "?I (snd (contamination_sample a st)) \<and>
          ?H (snd (contamination_sample a st)) = ?H st \<union> ?g a"
      by (simp add: st)
  qed (use c in simp_all)
  moreover have "(\<Union>a\<in>set [3..<len_columns ?d]. ?g a) = ?new" using s by auto
  moreover have "snd (mark_contamination_metrics x) = snd (snd ?run)"
    by (simp add: mark_contamination_metrics_def split: prod.splits)
  ultimately show ?thesis by simp
qed

lemma contamination_sample_text_score:
  assumes score: "stack_index_eq (df x) ''CONTAMINATION_SCORE (NA)'' = [(r1, 0)]"
    and s: "3 \<le> s" "s < len_columns (df x)"
    and v: "cell_at (df x) r1 s = Text t" "t \<noteq> ''NA''"
    and lim: "cell_at (df x) r1 1 = Number L"
  shows "fst (contamination_sample s (l, x)) = Some (TypeError cmp_msg)"
proof -
  have r: "r1 < length (df x)" using stack_index_eq_singleton(1) [OF score] .
  have c: "Suc 0 < len_columns (df x)" "Suc (Suc 0) < len_columns (df x)" using s by auto
  show ?thesis
    using r c s v lim
    by (simp add: contamination_sample_def elements_to_find_def score contamination_idx_def
        df_loc_def contamination_decide_def read_local_def exceeds_def numeral_2_eq_2)
qed

lemma text_score_aborts_mark_contamination_metrics:
  assumes score: "stack_index_eq (df x) ''CONTAMINATION_SCORE (NA)'' = [(r1, 0)]"
    and s: "3 \<le> s" "s < len_columns (df x)"
    and v: "cell_at (df x) r1 s = Text t" "t \<noteq> ''NA''"
    and lim: "cell_at (df x) r1 1 = Number L"
  shows "\<exists>e. fst (mark_contamination_metrics x) = Some e"
proof -
  let ?d = "df x"
  let ?I = "\<lambda>st :: locals \<times> excel. df (snd st) = ?d"
  have "fst (for_each contamination_sample [3..<len_columns ?d] (no_locals, x)) \<noteq> None"
  proof (rule for_each_error [where I = ?I and a = s])
    show "s \<in> set [3..<len_columns ?d]" using s by simp
    show "fst (contamination_sample s st) \<noteq> None" if "?I st" for st
    proof -
      obtain l y where st: "st = (l, y)" by (cases st)
      with that have "df y = ?d" by simp
      then show ?thesis
        using contamination_sample_text_score [of y r1 s t L l] assms by (simp add: st)
    qed
    show "?I (snd (contamination_sample b st))" if "?I st" for b st
    proof -
      obtain l y where st: "st = (l, y)" by (cases st)
      with that contamination_sample_frame [of b l y] show ?thesis by simp
    qed
  qed simp
  then show ?thesis by (auto simp: mark_contamination_metrics_def split: prod.splits)
qed

section \<open>Properties of \<open>mark_false\<close>\<close>

lemma mark_false_idx_status_row:
  assumes "fst idx + 1 = 17" and "snd idx < 18278"
  shows "mark_false_idx idx y = (None, highlight_cell (snd idx + 1) (fst idx + 1) y)"
proof -
  have "nat (int (snd idx) + 1) = snd idx + 1" by linarith
  with assms show ?thesis by (simp add: mark_false_idx_def get_column_letter_def Let_def)
qed

lemma mark_false_idx_other_row:
  assumes "fst idx + 1 \<noteq> 17" and "file_on_disk y"
  shows "mark_false_idx idx y = (Some (TypeError false_msg), y\<lparr>file_on_disk := False\<rparr>)"
  using assms by (simp add: mark_false_idx_def remove_file_def Let_def)

section \<open>Properties of \<open>move_rows\<close>\<close>

lemma map_of_move_cell:
  assumes "0 < n"
  shows "map_of (move_cell n k w) k' =
     (if k' = k then None else if k' = shift_right n k then Some (value_of w k) else map_of w k')"
  using assms
  by (cases k) (auto simp: move_cell_def shift_right_def AList.delete_conv' AList.update_conv')

lemma value_of_move_cell:
  assumes "0 < n"
  shows "value_of (move_cell n k w) k' =
     (if k' = k then Empty else if k' = shift_right n k then value_of w k else value_of w k')"
  using map_of_move_cell [OF assms, of k w k'] by (simp add: value_of_def)

lemma map_of_fold_move_cell:
  assumes "0 < n" and "distinct ks" and "sorted_wrt (\<lambda>a b. snd b \<le> snd a) ks"
  shows "map_of (fold (move_cell n) ks w) k =
     (if \<exists>k0\<in>set ks. k = shift_right n k0 then Some (value_of w (fst k, snd k - n))
      else if k \<in> set ks then None else map_of w k)"
  using assms(2,3)
proof (induction ks arbitrary: w)
  case Nil
  then show ?case by simp
next
  case (Cons k1 rest)
  let ?w1 = "move_cell n k1 w"
  have d: "k1 \<notin> set rest" "distinct rest" using Cons.prems(1) by auto
  have o: "\<forall>y\<in>set rest. snd y \<le> snd k1" "sorted_wrt (\<lambda>a b. snd b \<le> snd a) rest"
    using Cons.prems(2) by auto
  have later: "shift_right n k1 \<notin> set rest"
  proof
    assume "shift_right n k1 \<in> set rest"
    with o(1) have "snd (shift_right n k1) \<le> snd k1" by blast
    with \<open>0 < n\<close> show False by (simp add: shift_right_def)
  qed
  have IH: "map_of (fold (move_cell n) rest ?w1) k =
     (if \<exists>k0\<in>set rest. k = shift_right n k0 then Some (value_of ?w1 (fst k, snd k - n))
      else if k \<in> set rest then None else map_of ?w1 k)"
    using Cons.IH [OF d(2) o(2)] .
  have unshift: "(fst (shift_right n k0), snd (shift_right n k0) - n) = k0" for k0
    by (simp add: shift_right_def)
  have moved: "shift_right n k0 \<noteq> k0" for k0
    using \<open>0 < n\<close> by (cases k0) (simp add: shift_right_def)
  show ?case
  proof (cases "\<exists>k0\<in>set rest. k = shift_right n k0")
    case True
    then obtain k0 where k0: "k0 \<in> set rest" "k = shift_right n k0" by blast
    then have "k0 \<noteq> k1" "k0 \<noteq> shift_right n k1" using d(1) later by auto
    then have "value_of ?w1 k0 = value_of w k0"
      by (simp add: value_of_move_cell [OF \<open>0 < n\<close>])
    with True k0 IH show ?thesis by (auto simp: unshift)
  next
    case False
    show ?thesis
    proof (cases "k \<in> set rest")
      case True
      then have "k \<noteq> shift_right n k1" using later by auto
      with True False IH show ?thesis by auto
    next
      case notin: False
      from False notin IH have "map_of (fold (move_cell n) rest ?w1) k = map_of ?w1 k" by simp
      then show ?thesis
        using False notin moved [of k1]
        by (auto simp: map_of_move_cell [OF \<open>0 < n\<close>] unshift)
    qed
  qed
qed

lemma set_range_cells:
  "set (range_cells a b c d) = {(row, col). a \<le> col \<and> col \<le> c \<and> b \<le> row \<and> row \<le> d}"
  by (force simp: range_cells_def simp del: upt_Suc)

lemma distinct_cells:
  assumes "distinct cols" and "distinct rows"
  shows "distinct [(row, col). col \<leftarrow> cols, row \<leftarrow> rows]"
  using assms(1)
proof (induction cols)
  case Nil
  then show ?case by simp
next
  case (Cons c cols)
  have "distinct (map (\<lambda>row. (row, c)) rows)"
    using assms(2) by (simp add: distinct_map inj_on_def)
  with Cons show ?case by auto
qed

lemma sorted_cells:
  assumes "sorted_wrt (\<lambda>a b. b \<le> a) (cols :: nat list)"
  shows "sorted_wrt (\<lambda>a b. snd b \<le> snd a) [(row, col). col \<leftarrow> cols, row \<leftarrow> (rows :: nat list)]"
  using assms
proof (induction cols)
  case Nil
  then show ?case by simp
next
  case (Cons c cols)
  have "sorted_wrt (\<lambda>a b. snd b \<le> snd a) (map (\<lambda>row. (row, c)) rows)"
    by (induction rows) auto
  with Cons show ?case by (auto simp: sorted_wrt_append)
qed

lemma distinct_range_cells: "distinct (range_cells a b c d)"
  unfolding range_cells_def by (rule distinct_cells) simp_all

lemma sorted_range_cells: "sorted_wrt (\<lambda>a b. snd b \<le> snd a) (range_cells a b c d)"
  unfolding range_cells_def
proof (rule sorted_cells)
  have "sorted_wrt (\<lambda>x y. x \<le> y) [a..<c + 1]" using sorted_upt [of a "c + 1"] by simp
  then show "sorted_wrt (\<lambda>a b. b \<le> a) (rev [a..<c + 1])" by (simp add: sorted_wrt_rev)
qed

lemma map_of_move_range:
  assumes "0 < n"
  shows "map_of (fold (move_cell n) (range_cells a b c d) w) (row, col) =
     (if b \<le> row \<and> row \<le> d \<and> a + n \<le> col \<and> col \<le> c + n then Some (value_of w (row, col - n))
      else if b \<le> row \<and> row \<le> d \<and> a \<le> col \<and> col \<le> c then None
      else map_of w (row, col))"
proof -
  have "(\<exists>k0\<in>set (range_cells a b c d). (row, col) = shift_right n k0) \<longleftrightarrow>
          b \<le> row \<and> row \<le> d \<and> a + n \<le> col \<and> col \<le> c + n"
  proof
    assume "\<exists>k0\<in>set (range_cells a b c d). (row, col) = shift_right n k0"
    then show "b \<le> row \<and> row \<le> d \<and> a + n \<le> col \<and> col \<le> c + n"
      by (auto simp: set_range_cells shift_right_def)
  next
    assume h: "b \<le> row \<and> row \<le> d \<and> a + n \<le> col \<and> col \<le> c + n"
    then have "(row, col - n) \<in> set (range_cells a b c d)" by (auto simp: set_range_cells)
    moreover have "(row, col) = shift_right n (row, col - n)" using h by (simp add: shift_right_def)
    ultimately show "\<exists>k0\<in>set (range_cells a b c d). (row, col) = shift_right n k0" by blast
  qed
  then show ?thesis
    using map_of_fold_move_cell [OF assms distinct_range_cells sorted_range_cells, of a b c d w "(row, col)"]
    by (simp add: set_range_cells)
qed

lemma fold_max_eq:
  "fold (\<lambda>k n. max (f k) n) w (a::nat) = Max (insert a (f ` set w))"
proof (induction w arbitrary: a)
  case Nil
  then show ?case by simp
next
  case (Cons k w)
  have "Max (insert (max (f k) a) (f ` set w)) = Max (insert a (insert (f k) (f ` set w)))"
  proof (cases "set w = {}")
    case True
    then show ?thesis by (simp add: max.commute)
  next
    case False
    then show ?thesis by (simp add: max.assoc max.commute max.left_commute)
  qed
  with Cons show ?case by simp
qed

lemma max_column_upper: "k \<in> fst ` set w \<Longrightarrow> snd k \<le> max_column w"
  by (auto simp: max_column_def fold_max_eq intro!: Max_ge)

lemma max_row_upper: "k \<in> fst ` set w \<Longrightarrow> fst k \<le> max_row w"
  by (auto simp: max_row_def fold_max_eq intro!: Max_ge)

lemma max_column_eqI:
  assumes "\<And>k. k \<in> fst ` set w \<Longrightarrow> snd k \<le> m" and "k0 \<in> fst ` set w" and "snd k0 = m"
  shows "max_column w = m"
proof -
  have ne: "w \<noteq> []" using assms(2) by auto
  have "Max (insert 0 ((\<lambda>k. snd (fst k)) ` set w)) = m"
  proof (rule Max_eqI)
    show "finite (insert 0 ((\<lambda>k. snd (fst k)) ` set w))" by simp
    show "y \<le> m" if "y \<in> insert 0 ((\<lambda>k. snd (fst k)) ` set w)" for y
      using that assms(1) by force
    show "m \<in> insert 0 ((\<lambda>k. snd (fst k)) ` set w)" using assms(2,3) by auto
  qed
  with ne show ?thesis by (simp add: max_column_def fold_max_eq)
qed

lemma max_row_eqI:
  assumes "\<And>k. k \<in> fst ` set w \<Longrightarrow> fst k \<le> m" and "k0 \<in> fst ` set w" and "fst k0 = m"
  shows "max_row w = m"
proof -
  have ne: "w \<noteq> []" using assms(2) by auto
  have "Max (insert 0 ((\<lambda>k. fst (fst k)) ` set w)) = m"
  proof (rule Max_eqI)
    show "finite (insert 0 ((\<lambda>k. fst (fst k)) ` set w))" by simp
    show "y \<le> m" if "y \<in> insert 0 ((\<lambda>k. fst (fst k)) ` set w)" for y
      using that assms(1) by force
    show "m \<in> insert 0 ((\<lambda>k. fst (fst k)) ` set w)" using assms(2,3) by auto
  qed
  with ne show ?thesis by (simp add: max_row_def fold_max_eq)
qed

lemma max_row_attained:
  assumes "0 < max_row w" and "w \<noteq> []"
  shows "\<exists>k\<in>fst ` set w. fst k = max_row w"
proof -
  let ?S = "insert 0 ((\<lambda>k. fst (fst k)) ` set w)"
  have "Max ?S \<in> ?S" by (rule Max_in) simp_all
  moreover have "Max ?S = max_row w" using assms(2) by (simp add: max_row_def fold_max_eq)
  ultimately show ?thesis using assms(1) by force
qed

lemma key_iff: "k \<in> fst ` set w \<longleftrightarrow> map_of w k \<noteq> None"
  by (simp add: map_of_eq_None_iff)

lemma move_rows_complete_iff:
  "fst (move_rows x) = None \<longleftrightarrow> 4 \<le> max_column (ws x) \<and> max_column (ws x) \<le> 18280"
  by (auto simp: move_rows_def get_column_letter_def move_range_def split: sum.splits)

lemma move_rows_result:
  assumes "fst (move_rows x) = None"
  shows "snd (move_rows x) = x\<lparr>ws := moved (ws x), df := ws_values (moved (ws x))\<rparr>"
proof -
  have mc: "4 \<le> max_column (ws x)" "max_column (ws x) \<le> 18280"
    using assms by (simp_all add: move_rows_complete_iff)
  then have "nat (int (max_column (ws x)) - 2) = max_column (ws x) - 2" by simp
  with mc show ?thesis
    by (simp add: move_rows_def get_column_letter_def move_range_def moved_def)
qed

lemma map_of_moved:
  assumes "4 \<le> max_column w"
  shows "map_of (moved w) (row, col) =
     (if 16 \<le> row \<and> row \<le> 19 \<and> 4 \<le> col \<and> col \<le> max_column w
        then Some (value_of w (row, col - 2))
      else if 16 \<le> row \<and> row \<le> 19 \<and> 2 \<le> col \<and> col \<le> max_column w - 2 then None
      else map_of w (row, col))"
proof -
  have "2 + 2 \<le> col \<and> col \<le> max_column w - 2 + 2 \<longleftrightarrow> 4 \<le> col \<and> col \<le> max_column w"
    using assms by auto
  then show ?thesis
    unfolding moved_def
    using map_of_move_range [of 2 2 16 "max_column w - 2" 19 w row col] by simp
qed

lemma value_of_moved:
  assumes "4 \<le> max_column w"
  shows "value_of (moved w) (row, col) =
     (if 16 \<le> row \<and> row \<le> 19 \<and> 4 \<le> col \<and> col \<le> max_column w
        then value_of w (row, col - 2)
      else if 16 \<le> row \<and> row \<le> 19 \<and> 2 \<le> col \<and> col \<le> max_column w - 2 then Empty
      else value_of w (row, col))"
  by (auto simp: value_of_def map_of_moved [OF assms])

lemma max_column_moved:
  assumes "4 \<le> max_column w"
  shows "max_column (moved w) = max_column w"
proof (rule max_column_eqI)
  fix k assume "k \<in> fst ` set (moved w)"
  then have k: "map_of (moved w) k \<noteq> None" by (simp add: key_iff)
  obtain row col where rc: "k = (row, col)" by (cases k)
  show "snd k \<le> max_column w"
  proof (cases "16 \<le> row \<and> row \<le> 19 \<and> 4 \<le> col \<and> col \<le> max_column w")
    case True
    with rc show ?thesis by simp
  next
    case False
    with k rc have "map_of w k \<noteq> None"
      using map_of_moved [OF assms, of row col] by (auto split: if_splits)
    then have "k \<in> fst ` set w" by (simp add: key_iff)
    then show ?thesis by (rule max_column_upper)
  qed
next
  have "map_of (moved w) (16, max_column w) \<noteq> None"
    using map_of_moved [OF assms, of 16 "max_column w"] assms by simp
  then show "(16, max_column w) \<in> fst ` set (moved w)" by (simp add: key_iff)
  show "snd (16 :: nat, max_column w) = max_column w" by simp
qed

lemma max_row_moved:
  assumes "4 \<le> max_column w"
  shows "max_row (moved w) = max (max_row w) 19"
proof -
  have ne: "w \<noteq> []" using assms by (auto simp: max_column_def)
  have key19: "(19, max_column w) \<in> fst ` set (moved w)"
    using map_of_moved [OF assms, of 19 "max_column w"] assms by (simp add: key_iff)
  have upper: "fst k \<le> max (max_row w) 19" if "k \<in> fst ` set (moved w)" for k
  proof -
    obtain row col where rc: "k = (row, col)" by (cases k)
    show ?thesis
    proof (cases "16 \<le> row \<and> row \<le> 19")
      case True
      with rc show ?thesis by (simp add: le_max_iff_disj)
    next
      case False
      with that rc have "map_of w k \<noteq> None"
        using map_of_moved [OF assms, of row col] by (auto simp: key_iff split: if_splits)
      then have "fst k \<le> max_row w" using max_row_upper [of k w] by (simp add: key_iff)
      then show ?thesis by simp
    qed
  qed
  show ?thesis
  proof (cases "max_row w \<le> 19")
    case True
    have "max_row (moved w) = 19"
      by (intro max_row_eqI [where ?k0.0 = "(19, max_column w)"])
         (use upper key19 True in \<open>auto simp: max_def split: if_splits\<close>)
    with True show ?thesis by simp
  next
    case False
    then have "0 < max_row w" by simp
    from max_row_attained [OF this ne] obtain k where k: "k \<in> fst ` set w" "fst k = max_row w"
      by blast
    obtain row col where rc: "k = (row, col)" by (cases k)
    with k False have "\<not> (16 \<le> row \<and> row \<le> 19)" by auto
    with k(1) rc have "k \<in> fst ` set (moved w)"
      using map_of_moved [OF assms, of row col] by (auto simp: key_iff)
    then have "max_row (moved w) = max_row w"
      by (intro max_row_eqI [where ?k0.0 = k]) (use upper k False in \<open>auto simp: max_def split: if_splits\<close>)
    with False show ?thesis by simp
  qed
qed

lemma length_ws_values: "length (ws_values w) = max_row w"
  by (simp add: ws_values_def)

lemma len_columns_ws_values:
  assumes "0 < max_row w"
  shows "len_columns (ws_values w) = max_column w"
proof -
  have "length ` set (ws_values w) = {max_column w}"
    using assms by (auto simp: ws_values_def image_iff simp del: upt_Suc) 
  then show ?thesis by (simp add: len_columns_def fold_max_eq)
qed

lemma cell_at_ws_values:
  assumes "r < max_row w" and "c < max_column w"
  shows "cell_at (ws_values w) r c = value_of w (r + 1, c + 1)"
  using assms by (simp add: ws_values_def cell_at_def del: upt_Suc)

section \<open>Integer literals are float literals\<close>

lemma digitpart_chars: "digitpart s \<Longrightarrow> c \<in> set s \<Longrightarrow> is_digit c \<or> c = CHR ''_''"
  by (induction s rule: digitpart.induct) (auto split: if_splits)

lemma digit_not_e: "is_digit c \<Longrightarrow> \<not> is_e c \<and> c \<noteq> CHR ''.''"
  by (auto simp: is_digit_def is_e_def)

lemma digitpart_floatnumber:
  assumes "digitpart s"
  shows "floatnumber s"
proof -
  have ok: "\<not> is_e c \<and> c \<noteq> CHR ''.''" if "c \<in> set s" for c
    using digitpart_chars [OF assms that] digit_not_e [of c] by (auto simp: is_e_def)
  then have tw: "takeWhile (\<lambda>c. \<not> is_e c) s = s" "dropWhile (\<lambda>c. \<not> is_e c) s = []"
    "takeWhile (\<lambda>c. c \<noteq> CHR ''.'') s = s" "dropWhile (\<lambda>c. c \<noteq> CHR ''.'') s = []"
    by simp_all
  show ?thesis
    unfolding floatnumber_def number_literal_def Let_def tw using assms by simp
qed

lemma int_literal_float_literal: "int_literal s \<Longrightarrow> float_literal s"
  by (simp add: int_literal_def float_literal_def digitpart_floatnumber)

section \<open>The passes on the example reports\<close>

lemmas frame_defs =
  len_columns_def stack_index_eq_def cell_at_def df_loc_def py_gt_def get_column_letter_def
  highlight_cell_def upt_conv_Cons

lemmas other_defs =
  mark_other_metrics_def other_metric_loop_def other_metric_idx_def other_metric_outside_def
  metrics_to_find_def py_or_def

lemmas contamination_defs =
  mark_contamination_metrics_def contamination_sample_def contamination_idx_def
  contamination_decide_def exceeds_def read_local_def contamination_highlight_def
  contamination_highlight_idx_def elements_to_find_def no_locals_def

lemmas move_run_defs =
  move_rows_def get_column_letter_def max_column_def max_row_def move_range_def range_cells_def
  move_cell_def value_of_def AList.delete_eq ws_values_def upt_conv_Cons

lemma scenario_insert_size_run:
  "mark_other_metrics scenario_insert_size =
     (None, scenario_insert_size\<lparr>highlighted := {(4, 1), (6, 1)}\<rparr>)"
  by (simp add: scenario_insert_size_def other_defs frame_defs insert_commute)

lemma one_sided_limits_run:
  "mark_other_metrics one_sided_limits =
     (None, one_sided_limits\<lparr>highlighted := {(4, 1), (4, 2)}\<rparr>)"
  by (simp add: one_sided_limits_def other_defs frame_defs insert_commute numeral_2_eq_2)

lemma text_sample_run:
  "mark_other_metrics text_sample = (Some (TypeError cmp_msg), text_sample)"
  by (simp add: text_sample_def other_defs frame_defs)

lemma scenario_contamination_run:
  "mark_contamination_metrics scenario_contamination =
     (None, scenario_contamination\<lparr>highlighted := {(5, 1), (5, 2)}\<rparr>)"
  by (simp add: scenario_contamination_def contamination_defs frame_defs insert_commute numeral_2_eq_2)

lemma na_score_run:
  "mark_contamination_metrics na_score = (None, na_score\<lparr>highlighted := {(4, 1), (4, 2)}\<rparr>)"
  by (simp add: na_score_def contamination_defs frame_defs insert_commute numeral_2_eq_2)

lemma na_p_value_run:
  "mark_contamination_metrics na_p_value = (None, na_p_value)"
  by (simp add: na_p_value_def contamination_defs frame_defs)

lemma status_row_false_idx:
  "stack_index_eq (df status_row_false) ''FALSE'' = [(16, 1)]"
  by (simp add: status_row_false_def blank_row_def stack_index_eq_def len_columns_def cell_at_def
      upt_conv_Cons)

lemma row_above_false_idx:
  "stack_index_eq (df row_above_false) ''FALSE'' = [(15, 1)]"
  by (simp add: row_above_false_def blank_row_def stack_index_eq_def len_columns_def cell_at_def
      upt_conv_Cons)

lemma status_block_once:
  "fst (move_rows status_block) = None \<and>
   map (value_of (ws (snd (move_rows status_block)))) [(16, 1), (16, 2), (16, 3), (16, 4), (16, 5), (16, 6)] =
     [Text ''a'', Empty, Empty, Text ''b'', Text ''c'', Text ''d'']"
  by (simp add: status_block_def move_run_defs)

lemma status_block_twice:
  "fst (move_rows (snd (move_rows status_block))) = None \<and>
   map (value_of (ws (snd (move_rows (snd (move_rows status_block))))))
     [(16, 1), (16, 2), (16, 3), (16, 4), (16, 5), (16, 6)] =
     [Text ''a'', Empty, Empty, Empty, Empty, Text ''b'']"
  by (simp add: status_block_def move_run_defs)

lemma short_sheet_moved:
  "move_rows short_sheet =
     (None, short_sheet\<lparr>
        ws := moved (ws short_sheet),
        df := [[Text ''CONTAMINATION_SCORE (NA)'', Number 0, Number 0.02, Number 0.01],
               [Text ''CONTAMINATION_P_VALUE (NA)'', Number 0, Number 0.02, Number 0.01],
               [Text ''MEDIAN_INSERT_SIZE (bp)'', Number 100, Number 500, Number 300],
               [Empty, Empty, Empty, Empty], [Empty, Empty, Empty, Empty], [Empty, Empty, Empty, Empty],
               [Empty, Empty, Empty, Empty], [Empty, Empty, Empty, Empty], [Empty, Empty, Empty, Empty],
               [Empty, Empty, Empty, Empty], [Empty, Empty, Empty, Empty], [Empty, Empty, Empty, Empty],
               [Empty, Empty, Empty, Empty], [Empty, Empty, Empty, Empty], [Empty, Empty, Empty, Empty],
               [Empty, Empty, Empty, Empty], [Empty, Empty, Empty, Empty], [Empty, Empty, Empty, Empty],
               [Empty, Empty, Empty, Empty]]\<rparr>)"
  by (simp add: short_sheet_def moved_def move_run_defs)

lemma short_sheet_modify: "fst (modify short_sheet) = None"
  unfolding modify_def short_sheet_moved then_do_def
  by (simp add: mark_false_def contamination_defs other_defs frame_defs)

lemma insert_size_sheet_moved:
  "move_rows insert_size_sheet =
     (None, insert_size_sheet\<lparr>
        ws := moved (ws insert_size_sheet),
        df := [[Text ''MEDIAN_INSERT_SIZE (bp)'', Number 100, Number 500, Number 300],
               [Empty, Empty, Empty, Empty], [Empty, Empty, Empty, Empty], [Empty, Empty, Empty, Empty],
               [Empty, Empty, Empty, Empty], [Empty, Empty, Empty, Empty], [Empty, Empty, Empty, Empty],
               [Empty, Empty, Empty, Empty], [Empty, Empty, Empty, Empty], [Empty, Empty, Empty, Empty],
               [Empty, Empty, Empty, Empty], [Empty, Empty, Empty, Empty], [Empty, Empty, Empty, Empty],
               [Empty, Empty, Empty, Empty], [Empty, Empty, Empty, Empty], [Empty, Empty, Empty, Empty],
               [Empty, Empty, Empty, Empty], [Empty, Empty, Empty, Empty], [Empty, Empty, Empty, Empty]]\<rparr>)"
  by (simp add: insert_size_sheet_def moved_def move_run_defs)

lemma insert_size_sheet_modify: "fst (modify insert_size_sheet) = Some UnboundLocalError"
  unfolding modify_def insert_size_sheet_moved then_do_def
  by (simp add: mark_false_def contamination_defs frame_defs)

section \<open>The claims\<close>

subsection \<open>\<open>mark_contamination_metrics\<close>: which cells of the pair are highlighted\<close>

text \<open>
  C1, as stated, fails: with the limits 0.0 and 0.02, a sample with the score 0.01 (in
  range) and the p-value 0.05 (out of range) has neither cell highlighted. The first
  element in range sets the flag to false and leaves the loop by \<open>break\<close>.
\<close>

theorem contamination_either_outside_counterexample:
  "cell_at (df scenario_contamination) 0 3 = Number 0.01 \<and>
   cell_at (df scenario_contamination) 1 3 = Number 0.05 \<and>
   cell_at (df scenario_contamination) 1 1 = Number 0 \<and>
   cell_at (df scenario_contamination) 1 2 = Number 0.02 \<and>
   fst (mark_contamination_metrics scenario_contamination) = None \<and>
   (4, 1) \<notin> highlighted (snd (mark_contamination_metrics scenario_contamination)) \<and>
   (4, 2) \<notin> highlighted (snd (mark_contamination_metrics scenario_contamination))"
  by (simp add: scenario_contamination_run) (simp add: scenario_contamination_def cell_at_def)

text \<open>
  C1, amended: in a run of \<open>mark_contamination_metrics\<close> that completes, on a report
  where each of the two labels occurs once, in the first column, with numeric limits in
  its row, a sample column \<open>s \<ge> 3\<close> with two numeric measurements has both cells
  highlighted if and only if both measurements are outside the limits of their rows;
  when either is within its limits, neither cell is highlighted.
\<close>

theorem contamination_flagged_iff_both_outside:
  assumes "fst (mark_contamination_metrics x) = None"
    and "stack_index_eq (df x) ''CONTAMINATION_SCORE (NA)'' = [(r1, 0)]"
    and "stack_index_eq (df x) ''CONTAMINATION_P_VALUE (NA)'' = [(r2, 0)]"
    and "3 \<le> s" and "s < len_columns (df x)"
    and "cell_at (df x) r1 1 = Number L1" and "cell_at (df x) r1 2 = Number U1"
    and "cell_at (df x) r2 1 = Number L2" and "cell_at (df x) r2 2 = Number U2"
    and "cell_at (df x) r1 s = Number v1" and "cell_at (df x) r2 s = Number v2"
    and "(s + 1, r1 + 1) \<notin> highlighted x" and "(s + 1, r2 + 1) \<notin> highlighted x"
  shows "((s + 1, r1 + 1) \<in> highlighted (snd (mark_contamination_metrics x)) \<longleftrightarrow>
            (v1 < L1 \<or> v1 > U1) \<and> (v2 < L2 \<or> v2 > U2)) \<and>
         ((s + 1, r2 + 1) \<in> highlighted (snd (mark_contamination_metrics x)) \<longleftrightarrow>
            (v1 < L1 \<or> v1 > U1) \<and> (v2 < L2 \<or> v2 > U2))"
proof -
  let ?h = "highlighted (snd (mark_contamination_metrics x))"
  have col: "?h \<inter> column_cells s =
      highlighted x \<inter> column_cells s \<union>
      (if outside v1 L1 U1 \<and> outside v2 L2 U2 then {(s + 1, r1 + 1), (s + 1, r2 + 1)} else {})"
    by (rule mark_contamination_metrics_column [OF assms(2-11) assms(1)])
  have in_col: "(s + 1, r) \<in> column_cells s" for r by (simp add: column_cells_def)
  have "(s + 1, r) \<in> ?h \<longleftrightarrow> (s + 1, r) \<in> ?h \<inter> column_cells s" for r
    using in_col by simp
  then have "(s + 1, r) \<in> ?h \<longleftrightarrow>
      (s + 1, r) \<in> highlighted x \<or>
      outside v1 L1 U1 \<and> outside v2 L2 U2 \<and> (r = r1 + 1 \<or> r = r2 + 1)" for r
    unfolding col using in_col by auto
  with assms(12,13) show ?thesis by (auto simp: outside_def)
qed

theorem contamination_flagged_iff_both_outside_witness:
  "(4, 1) \<notin> highlighted (snd (mark_contamination_metrics scenario_contamination)) \<and>
   (4, 2) \<notin> highlighted (snd (mark_contamination_metrics scenario_contamination)) \<and>
   (5, 1) \<in> highlighted (snd (mark_contamination_metrics scenario_contamination)) \<and>
   (5, 2) \<in> highlighted (snd (mark_contamination_metrics scenario_contamination))"
proof -
  let ?x = scenario_contamination
  have c: "fst (mark_contamination_metrics ?x) = None" by (simp add: scenario_contamination_run)
  have i1: "stack_index_eq (df ?x) ''CONTAMINATION_SCORE (NA)'' = [(0, 0)]"
    and i2: "stack_index_eq (df ?x) ''CONTAMINATION_P_VALUE (NA)'' = [(1, 0)]"
    by (simp_all add: scenario_contamination_def stack_index_eq_def len_columns_def cell_at_def
        upt_conv_Cons)
  have n: "len_columns (df ?x) = 5" by (simp add: scenario_contamination_def len_columns_def)
  have l: "cell_at (df ?x) 0 1 = Number 0" "cell_at (df ?x) 0 2 = Number 0.02"
    "cell_at (df ?x) 1 1 = Number 0" "cell_at (df ?x) 1 2 = Number 0.02"
    by (simp_all add: scenario_contamination_def cell_at_def)
  have v3: "cell_at (df ?x) 0 3 = Number 0.01" "cell_at (df ?x) 1 3 = Number 0.05"
    and v4: "cell_at (df ?x) 0 4 = Number 0.05" "cell_at (df ?x) 1 4 = Number 0.05"
    by (simp_all add: scenario_contamination_def cell_at_def)
  have f: "(a, b) \<notin> highlighted ?x" for a b by (simp add: scenario_contamination_def)
  show ?thesis
    using contamination_flagged_iff_both_outside [OF c i1 i2 _ _ l v3, of ]
      contamination_flagged_iff_both_outside [OF c i1 i2 _ _ l v4] n f
    by (simp add: numeral_2_eq_2)
qed

subsection \<open>\<open>mark_contamination_metrics\<close>: a score cell that holds \<open>'NA'\<close>\<close>

text \<open>
  C3 fails in \<open>mark_contamination_metrics\<close>: with the limits 0.0 and 0.02, a score
  cell that holds \<open>'NA'\<close> is highlighted when the p-value 0.05 of its sample is out
  of range. The branch for \<open>'NA'\<close> sets the flag to false without leaving the loop,
  and the next element sets it again. With the two measurements exchanged (score 0.05,
  p-value \<open>'NA'\<close>) nothing is highlighted, and \<open>mark_other_metrics\<close> never
  highlights a cell that holds \<open>'NA'\<close> (\<open>mark_other_metrics_keeps_NA_cell\<close>).
\<close>

theorem na_score_cell_highlighted:
  "cell_at (df na_score) 0 3 = Text ''NA'' \<and>
   cell_at (df na_score) 1 3 = Number 0.05 \<and>
   (4, 1) \<notin> highlighted na_score \<and>
   mark_contamination_metrics na_score = (None, na_score\<lparr>highlighted := {(4, 1), (4, 2)}\<rparr>) \<and>
   cell_at (df na_p_value) 0 3 = Number 0.05 \<and>
   cell_at (df na_p_value) 1 3 = Text ''NA'' \<and>
   mark_contamination_metrics na_p_value = (None, na_p_value)"
  by (simp add: na_score_run na_p_value_run)
     (simp add: na_score_def na_p_value_def cell_at_def)

subsection \<open>\<open>mark_other_metrics\<close>: the rule with two limits\<close>

text \<open>
  C4, as stated, fails where the lower limit is above the upper one: with the limits 5
  and 3, the value 5 equals the lower limit and is highlighted, being above the upper
  limit.
\<close>

theorem boundary_value_flagged_counterexample:
  "cell_at (df reversed_limits) 0 1 = Number 5 \<and> cell_at (df reversed_limits) 0 2 = Number 3 \<and>
   cell_at (df reversed_limits) 0 3 = Number 5 \<and>
   mark_other_metrics reversed_limits = (None, reversed_limits\<lparr>highlighted := {(4, 1)}\<rparr>)"
  by (simp add: reversed_limits_def other_defs frame_defs)

text \<open>
  C4, amended: in a run of \<open>mark_other_metrics\<close> that completes, for a row with a
  configured label in its first column and nowhere else, numeric limits \<open>L\<close> and
  \<open>U\<close> in the next two columns and a numeric value \<open>v\<close> in a sample column
  \<open>s \<ge> 3\<close>, the cell is highlighted if and only if \<open>v < L\<close> or \<open>v > U\<close>; when
  \<open>L \<le> U\<close>, a value equal to \<open>L\<close> or to \<open>U\<close> is not highlighted.
\<close>

theorem two_sided_rule:
  assumes "fst (mark_other_metrics x) = None"
    and "m \<in> set metrics_to_find" and "r < length (df x)" and "cell_at (df x) r 0 = Text m"
    and "\<forall>c\<in>{1..<len_columns (df x)}. \<forall>m'\<in>set metrics_to_find. cell_at (df x) r c \<noteq> Text m'"
    and "3 \<le> s" and "s < len_columns (df x)"
    and "cell_at (df x) r 1 = Number L" and "cell_at (df x) r 2 = Number U"
    and "cell_at (df x) r s = Number v"
    and "(s + 1, r + 1) \<notin> highlighted x"
  shows "((s + 1, r + 1) \<in> highlighted (snd (mark_other_metrics x)) \<longleftrightarrow> v < L \<or> v > U) \<and>
         (L \<le> U \<longrightarrow> v = L \<or> v = U \<longrightarrow> (s + 1, r + 1) \<notin> highlighted (snd (mark_other_metrics x)))"
proof -
  have "(s + 1, r + 1) \<in> highlighted (snd (mark_other_metrics x)) \<longleftrightarrow>
          other_metric_outside (Number L) (Number U) (Number v) = Inr True"
    using other_cell_flagged_iff [OF assms(1-7) assms(11)] assms(8-10) by simp
  also have "\<dots> \<longleftrightarrow> v < L \<or> v > U"
    by (auto simp: other_metric_outside_def py_or_def py_gt_def split: bool.splits)
  finally show ?thesis by auto
qed

theorem two_sided_rule_witness:
  "(4, 1) \<in> highlighted (snd (mark_other_metrics scenario_insert_size)) \<and>
   (5, 1) \<notin> highlighted (snd (mark_other_metrics scenario_insert_size)) \<and>
   (6, 1) \<in> highlighted (snd (mark_other_metrics scenario_insert_size))"
proof -
  let ?x = scenario_insert_size
  have c: "fst (mark_other_metrics ?x) = None" by (simp add: scenario_insert_size_run)
  have m: "''MEDIAN_INSERT_SIZE (bp)'' \<in> set metrics_to_find" by (simp add: metrics_to_find_def)
  have r: "0 < length (df ?x)" by (simp add: scenario_insert_size_def)
  have l: "cell_at (df ?x) 0 0 = Text ''MEDIAN_INSERT_SIZE (bp)''"
    by (simp add: scenario_insert_size_def cell_at_def)
  have n: "len_columns (df ?x) = 6" by (simp add: scenario_insert_size_def len_columns_def)
  have o: "\<forall>c\<in>{1..<len_columns (df ?x)}. \<forall>m'\<in>set metrics_to_find. cell_at (df ?x) 0 c \<noteq> Text m'"
    unfolding n by (auto simp: scenario_insert_size_def cell_at_def nth_Cons')
  have L: "cell_at (df ?x) 0 1 = Number 100" and U: "cell_at (df ?x) 0 2 = Number 500"
    by (simp_all add: scenario_insert_size_def cell_at_def)
  have v3: "cell_at (df ?x) 0 3 = Number 50" and v4: "cell_at (df ?x) 0 4 = Number 300"
    and v5: "cell_at (df ?x) 0 5 = Number 600"
    by (simp_all add: scenario_insert_size_def cell_at_def)
  have f: "(a, b) \<notin> highlighted ?x" for a b by (simp add: scenario_insert_size_def)
  show ?thesis
    using two_sided_rule [OF c m r l o _ _ L U v3, of ] two_sided_rule [OF c m r l o _ _ L U v4]
      two_sided_rule [OF c m r l o _ _ L U v5] n f
    by simp
qed

subsection \<open>\<open>mark_other_metrics\<close>: the rules with one limit\<close>

text \<open>
  C5: in a run of \<open>mark_other_metrics\<close> that completes, for a row with a configured
  label in its first column and nowhere else and a sample column \<open>s \<ge> 3\<close> with a
  numeric value \<open>v\<close>: when the upper limit is \<open>'NA'\<close> and the lower limit \<open>L\<close> is
  numeric, the cell is highlighted if and only if \<open>v < L\<close>; when the lower limit is
  \<open>'NA'\<close> and the upper limit \<open>U\<close> is numeric, if and only if \<open>v > U\<close>; when both
  limits are \<open>'NA'\<close>, the cell is not highlighted.
\<close>

theorem one_sided_rules:
  assumes "fst (mark_other_metrics x) = None"
    and "m \<in> set metrics_to_find" and "r < length (df x)" and "cell_at (df x) r 0 = Text m"
    and "\<forall>c\<in>{1..<len_columns (df x)}. \<forall>m'\<in>set metrics_to_find. cell_at (df x) r c \<noteq> Text m'"
    and "3 \<le> s" and "s < len_columns (df x)"
    and "(s + 1, r + 1) \<notin> highlighted x"
  shows "(cell_at (df x) r 1 = Number L \<and> cell_at (df x) r 2 = Text ''NA'' \<and>
          cell_at (df x) r s = Number v \<longrightarrow>
            ((s + 1, r + 1) \<in> highlighted (snd (mark_other_metrics x)) \<longleftrightarrow> v < L)) \<and>
         (cell_at (df x) r 1 = Text ''NA'' \<and> cell_at (df x) r 2 = Number U \<and>
          cell_at (df x) r s = Number v \<longrightarrow>
            ((s + 1, r + 1) \<in> highlighted (snd (mark_other_metrics x)) \<longleftrightarrow> v > U)) \<and>
         (cell_at (df x) r 1 = Text ''NA'' \<and> cell_at (df x) r 2 = Text ''NA'' \<longrightarrow>
            (s + 1, r + 1) \<notin> highlighted (snd (mark_other_metrics x)))"
proof -
  have "(s + 1, r + 1) \<in> highlighted (snd (mark_other_metrics x)) \<longleftrightarrow>
          other_metric_outside (cell_at (df x) r 1) (cell_at (df x) r 2) (cell_at (df x) r s) = Inr True"
    using other_cell_flagged_iff [OF assms] .
  then show ?thesis
    by (auto simp: other_metric_outside_def py_or_def py_gt_def)
qed

theorem one_sided_rules_witness:
  "(4, 1) \<in> highlighted (snd (mark_other_metrics one_sided_limits)) \<and>
   (5, 1) \<notin> highlighted (snd (mark_other_metrics one_sided_limits)) \<and>
   (4, 2) \<in> highlighted (snd (mark_other_metrics one_sided_limits)) \<and>
   (5, 2) \<notin> highlighted (snd (mark_other_metrics one_sided_limits)) \<and>
   (4, 3) \<notin> highlighted (snd (mark_other_metrics one_sided_limits)) \<and>
   (5, 3) \<notin> highlighted (snd (mark_other_metrics one_sided_limits))"
proof -
  let ?x = one_sided_limits
  have c: "fst (mark_other_metrics ?x) = None" by (simp add: one_sided_limits_run)
  have m: "''MEDIAN_EXON_COVERAGE (Count)'' \<in> set metrics_to_find"
    "''COVERAGE_MAD (Count)'' \<in> set metrics_to_find" "''PCT_EXON_50X (%)'' \<in> set metrics_to_find"
    by (simp_all add: metrics_to_find_def)
  have r: "0 < length (df ?x)" "1 < length (df ?x)" "2 < length (df ?x)"
    by (simp_all add: one_sided_limits_def)
  have l: "cell_at (df ?x) 0 0 = Text ''MEDIAN_EXON_COVERAGE (Count)''"
    "cell_at (df ?x) 1 0 = Text ''COVERAGE_MAD (Count)''"
    "cell_at (df ?x) 2 0 = Text ''PCT_EXON_50X (%)''"
    by (simp_all add: one_sided_limits_def cell_at_def)
  have n: "len_columns (df ?x) = 5" by (simp add: one_sided_limits_def len_columns_def)
  have o: "\<forall>c\<in>{1..<len_columns (df ?x)}. \<forall>m'\<in>set metrics_to_find. cell_at (df ?x) 0 c \<noteq> Text m'"
    "\<forall>c\<in>{1..<len_columns (df ?x)}. \<forall>m'\<in>set metrics_to_find. cell_at (df ?x) 1 c \<noteq> Text m'"
    "\<forall>c\<in>{1..<len_columns (df ?x)}. \<forall>m'\<in>set metrics_to_find. cell_at (df ?x) 2 c \<noteq> Text m'"
    unfolding n by (auto simp: one_sided_limits_def cell_at_def nth_Cons' metrics_to_find_def)
  have v: "cell_at (df ?x) 0 1 = Number 150" "cell_at (df ?x) 0 2 = Text ''NA''"
    "cell_at (df ?x) 0 3 = Number 100" "cell_at (df ?x) 0 4 = Number 150"
    "cell_at (df ?x) 1 1 = Text ''NA''" "cell_at (df ?x) 1 2 = Number 0.21"
    "cell_at (df ?x) 1 3 = Number 0.3" "cell_at (df ?x) 1 4 = Number 0.21"
    "cell_at (df ?x) 2 1 = Text ''NA''" "cell_at (df ?x) 2 2 = Text ''NA''"
    by (simp_all add: one_sided_limits_def cell_at_def)
  have f: "(a, b) \<notin> highlighted ?x" for a b by (simp add: one_sided_limits_def)
  have s: "(3::nat) \<le> 3" "(3::nat) \<le> 4" "3 < len_columns (df ?x)" "4 < len_columns (df ?x)"
    by (simp_all add: n)
  show ?thesis
    using one_sided_rules [OF c m(1) r(1) l(1) o(1) s(1) s(3) f, of 150 100 0]
      one_sided_rules [OF c m(1) r(1) l(1) o(1) s(2) s(4) f, of 150 150 0]
      one_sided_rules [OF c m(2) r(2) l(2) o(2) s(1) s(3) f, of 0 "0.3" "0.21"]
      one_sided_rules [OF c m(2) r(2) l(2) o(2) s(2) s(4) f, of 0 "0.21" "0.21"]
      one_sided_rules [OF c m(3) r(3) l(3) o(3) s(1) s(3) f, of 0 0 0]
      one_sided_rules [OF c m(3) r(3) l(3) o(3) s(2) s(4) f, of 0 0 0] v
    by (simp add: eval_nat_numeral)
qed

subsection \<open>A sample cell that is text and not \<open>'NA'\<close>\<close>

text \<open>
  C6, as stated, fails: on a metric row with the limits 100 and 500 and the sample cell
  \<open>'abc'\<close>, \<open>mark_other_metrics\<close> raises \<open>TypeError\<close> from the comparison, and
  the sample columns after it are not evaluated.
\<close>

theorem text_cell_raises_counterexample:
  "cell_at (df text_sample) 0 3 = Text ''abc'' \<and>
   cell_at (df text_sample) 0 4 = Number 600 \<and>
   fst (mark_other_metrics text_sample) = Some (TypeError cmp_msg) \<and>
   (5, 1) \<notin> highlighted (snd (mark_other_metrics text_sample))"
  by (simp add: text_sample_run) (simp add: text_sample_def cell_at_def)

text \<open>
  C6, amended: a sample cell that holds a text other than \<open>'NA'\<close> ends the pass
  with an exception (the \<open>TypeError\<close> of the comparison, unless an earlier cell has
  raised already): in \<open>mark_other_metrics\<close> when the row holds a configured label,
  at least one of the two limits after the label is numeric and the other is numeric or
  \<open>'NA'\<close>; in \<open>mark_contamination_metrics\<close> when the cell is in the row of the
  score label, which occurs once, in the first column, with a numeric lower limit.
\<close>

theorem text_cell_aborts_the_pass:
  "(m \<in> set metrics_to_find \<and> r < length (df x) \<and> c < len_columns (df x) \<and>
    cell_at (df x) r c = Text m \<and> 3 \<le> s \<and> s < len_columns (df x) \<and>
    cell_at (df x) r s = Text t \<and> t \<noteq> ''NA'' \<and>
    ((\<exists>a. cell_at (df x) r (c + 1) = Number a) \<and>
       ((\<exists>b. cell_at (df x) r (c + 2) = Number b) \<or> cell_at (df x) r (c + 2) = Text ''NA'') \<or>
     cell_at (df x) r (c + 1) = Text ''NA'' \<and> (\<exists>b. cell_at (df x) r (c + 2) = Number b)) \<longrightarrow>
      (\<exists>e. fst (mark_other_metrics x) = Some e)) \<and>
   (stack_index_eq (df x) ''CONTAMINATION_SCORE (NA)'' = [(r1, 0)] \<and>
    3 \<le> s \<and> s < len_columns (df x) \<and> cell_at (df x) r1 s = Text t \<and> t \<noteq> ''NA'' \<and>
    cell_at (df x) r1 1 = Number L \<longrightarrow>
      (\<exists>e. fst (mark_contamination_metrics x) = Some e))"
  using other_text_cell_aborts [where m = m and x = x and r = r and c = c and s = s and t = t]
    text_score_aborts_mark_contamination_metrics
      [where x = x and ?r1.0 = r1 and s = s and t = t and L = L]
  by blast

theorem text_cell_aborts_the_pass_witness:
  "(\<exists>e. fst (mark_other_metrics text_sample) = Some e) \<and>
   (\<exists>e. fst (mark_contamination_metrics text_score) = Some e)"
proof -
  have m: "''MEDIAN_INSERT_SIZE (bp)'' \<in> set metrics_to_find" by (simp add: metrics_to_find_def)
  have n: "len_columns (df text_sample) = 5" "len_columns (df text_score) = 4"
    by (simp_all add: text_sample_def text_score_def len_columns_def)
  have l: "0 < length (df text_sample)"
    "cell_at (df text_sample) 0 0 = Text ''MEDIAN_INSERT_SIZE (bp)''"
    "cell_at (df text_sample) 0 (0 + 1) = Number 100"
    "cell_at (df text_sample) 0 (0 + 2) = Number 500"
    "cell_at (df text_sample) 0 3 = Text ''abc''"
    by (simp_all add: text_sample_def cell_at_def)
  have i: "stack_index_eq (df text_score) ''CONTAMINATION_SCORE (NA)'' = [(0, 0)]"
    by (simp add: text_score_def frame_defs)
  have v: "cell_at (df text_score) 0 3 = Text ''abc''" "cell_at (df text_score) 0 1 = Number 0"
    by (simp_all add: text_score_def cell_at_def)
  have t: "''abc'' \<noteq> ''NA''" by simp
  from m n l t
  have "\<exists>e. fst (mark_other_metrics text_sample) = Some e"
    using text_cell_aborts_the_pass
      [where m = "''MEDIAN_INSERT_SIZE (bp)''" and x = text_sample and r = 0 and c = 0 and s = 3
         and t = "''abc''"]
    by simp
  moreover from n i v t
  have "\<exists>e. fst (mark_contamination_metrics text_score) = Some e"
    using text_cell_aborts_the_pass
      [where x = text_score and s = 3 and t = "''abc''" and ?r1.0 = 0 and L = 0]
    by simp
  ultimately show ?thesis by simp
qed

subsection \<open>A configured label that is missing from the report\<close>

text \<open>
  C9 fails in \<open>mark_contamination_metrics\<close>: on a report with sample columns and
  without the contamination labels, the pass reads \<open>value_to_compare\<close> before any
  assignment and raises \<open>UnboundLocalError\<close>, which ends \<open>modify\<close>, while
  \<open>mark_other_metrics\<close> completes on a report without its labels.
\<close>

theorem missing_contamination_label_raises:
  "stack_index_eq (df scenario_insert_size) ''CONTAMINATION_SCORE (NA)'' = [] \<and>
   stack_index_eq (df scenario_insert_size) ''CONTAMINATION_P_VALUE (NA)'' = [] \<and>
   fst (mark_contamination_metrics scenario_insert_size) = Some UnboundLocalError \<and>
   fst (modify insert_size_sheet) = Some UnboundLocalError \<and>
   fst (mark_other_metrics scenario_contamination) = None"
  by (simp add: insert_size_sheet_modify)
     (simp add: scenario_insert_size_def scenario_contamination_def contamination_defs other_defs
        frame_defs)

subsection \<open>\<open>move_rows\<close> on a worksheet with fewer rows than the range\<close>

text \<open>
  C7, as stated, fails: on a worksheet of three rows and four columns \<open>move_rows\<close>
  raises nothing, and the whole of \<open>modify\<close> runs to its end.
\<close>

theorem short_sheet_not_rejected_counterexample:
  "max_row (ws short_sheet) = 3 \<and> fst (move_rows short_sheet) = None \<and>
   fst (modify short_sheet) = None"
  by (simp add: short_sheet_modify short_sheet_moved) (simp add: short_sheet_def max_row_def)

text \<open>
  C7, amended: \<open>move_rows\<close> has no test on the number of rows. It completes exactly
  when the worksheet has between 4 and 18280 columns and raises \<open>ValueError\<close>, leaving
  the object as it was, otherwise; when it completes on a worksheet with fewer than 19
  rows, the data frame it leaves has 19 rows.
\<close>

theorem move_rows_fails_only_on_columns:
  "(fst (move_rows x) = None \<longleftrightarrow> 4 \<le> max_column (ws x) \<and> max_column (ws x) \<le> 18280) \<and>
   (fst (move_rows x) \<noteq> None \<longrightarrow> move_rows x = (Some ValueError, x)) \<and>
   (fst (move_rows x) = None \<longrightarrow> length (df (snd (move_rows x))) = max (max_row (ws x)) 19)"
proof (intro conjI impI)
  show "fst (move_rows x) = None \<longleftrightarrow> 4 \<le> max_column (ws x) \<and> max_column (ws x) \<le> 18280"
    by (rule move_rows_complete_iff)
  show "move_rows x = (Some ValueError, x)" if "fst (move_rows x) \<noteq> None"
    using that
    by (auto simp: move_rows_def get_column_letter_def move_range_def split: sum.splits if_splits)
  show "length (df (snd (move_rows x))) = max (max_row (ws x)) 19" if "fst (move_rows x) = None"
  proof -
    have "4 \<le> max_column (ws x)" using that by (simp add: move_rows_complete_iff)
    then show ?thesis
      by (simp add: move_rows_result [OF that] length_ws_values max_row_moved)
  qed
qed

theorem move_rows_fails_only_on_columns_witness:
  "length (df (snd (move_rows short_sheet))) = 19 \<and>
   max_row (ws narrow_sheet) = 20 \<and> move_rows narrow_sheet = (Some ValueError, narrow_sheet)"
proof -
  have a: "max_column (ws short_sheet) = 4" "max_row (ws short_sheet) = 3"
    by (simp_all add: short_sheet_def max_column_def max_row_def)
  have b: "max_column (ws narrow_sheet) = 3" "max_row (ws narrow_sheet) = 20"
    by (simp_all add: narrow_sheet_def max_column_def max_row_def)
  show ?thesis
    using move_rows_fails_only_on_columns [of short_sheet]
      move_rows_fails_only_on_columns [of narrow_sheet] a b
    by simp
qed

subsection \<open>\<open>move_rows\<close> applied to a worksheet it has already moved\<close>

text \<open>
  C8, as stated, fails: applied to the worksheet it has produced, \<open>move_rows\<close> moves
  the block again. The row \<open>a b c d e f\<close> becomes \<open>a _ _ b c d\<close> and then
  \<open>a _ _ _ _ b\<close>; the vacated cells are empty, they do not hold \<open>'NA'\<close>.
\<close>

theorem move_rows_twice_counterexample:
  "fst (move_rows status_block) = None \<and>
   fst (move_rows (snd (move_rows status_block))) = None \<and>
   map (value_of (ws (snd (move_rows status_block))))
     [(16, 1), (16, 2), (16, 3), (16, 4), (16, 5), (16, 6)] =
     [Text ''a'', Empty, Empty, Text ''b'', Text ''c'', Text ''d''] \<and>
   map (value_of (ws (snd (move_rows (snd (move_rows status_block))))))
     [(16, 1), (16, 2), (16, 3), (16, 4), (16, 5), (16, 6)] =
     [Text ''a'', Empty, Empty, Empty, Empty, Text ''b'']"
  using status_block_once status_block_twice by simp

text \<open>
  C8, amended: each application of \<open>move_rows\<close> that completes moves the cells of
  rows 16 to 19 in the columns 2 to \<open>max_column - 2\<close> right by exactly two columns (the
  cells of the last two columns of these rows are overwritten), leaves the vacated cells
  empty, leaves every other cell as it was, keeps the number of columns and rebuilds the
  data frame from the moved worksheet. It is not idempotent.
\<close>

theorem move_rows_shifts_by_two:
  assumes "fst (move_rows x) = None"
  shows "value_of (ws (snd (move_rows x))) (row, col) =
           (if 16 \<le> row \<and> row \<le> 19 \<and> 4 \<le> col \<and> col \<le> max_column (ws x)
              then value_of (ws x) (row, col - 2)
            else if 16 \<le> row \<and> row \<le> 19 \<and> 2 \<le> col \<and> col \<le> max_column (ws x) - 2
              then Empty
            else value_of (ws x) (row, col)) \<and>
         max_column (ws (snd (move_rows x))) = max_column (ws x) \<and>
         df (snd (move_rows x)) = ws_values (ws (snd (move_rows x)))"
proof -
  have "4 \<le> max_column (ws x)" using assms by (simp add: move_rows_complete_iff)
  then show ?thesis
    by (simp add: move_rows_result [OF assms] value_of_moved max_column_moved)
qed

theorem move_rows_shifts_by_two_witness:
  "value_of (ws (snd (move_rows status_block))) (16, 4) = Text ''b'' \<and>
   value_of (ws (snd (move_rows status_block))) (16, 2) = Empty \<and>
   value_of (ws (snd (move_rows status_block))) (16, 1) = Text ''a'' \<and>
   max_column (ws (snd (move_rows status_block))) = 6"
proof -
  have c: "fst (move_rows status_block) = None" using status_block_once by simp
  have m: "max_column (ws status_block) = 6" by (simp add: status_block_def max_column_def)
  have v: "value_of (ws status_block) (16, 2) = Text ''b''"
    "value_of (ws status_block) (16, 1) = Text ''a''"
    by (simp_all add: status_block_def value_of_def)
  show ?thesis
    using move_rows_shifts_by_two [OF c, of 16 4] move_rows_shifts_by_two [OF c, of 16 2]
      move_rows_shifts_by_two [OF c, of 16 1] m v
    by simp
qed

subsection \<open>\<open>mark_false\<close>: the string \<open>FALSE\<close> and row 17\<close>

text \<open>
  C2: for an object whose file exists and whose data frame has at most 18278 columns (the
  most a worksheet can have): when every cell equal to \<open>'FALSE'\<close> is in row 17,
  \<open>mark_false\<close> completes, the file is still there and every such cell is
  highlighted; when some cell equal to \<open>'FALSE'\<close> is in another row,
  \<open>mark_false\<close> raises the \<open>TypeError\<close> of line 114 and the file has been
  removed.
\<close>

theorem mark_false_status_row:
  assumes "len_columns (df x) \<le> 18278" and "file_on_disk x"
  shows "((\<forall>idx\<in>set (stack_index_eq (df x) ''FALSE''). fst idx + 1 = 17) \<longrightarrow>
            fst (mark_false x) = None \<and> file_on_disk (snd (mark_false x)) \<and>
            (\<forall>idx\<in>set (stack_index_eq (df x) ''FALSE'').
               (snd idx + 1, fst idx + 1) \<in> highlighted (snd (mark_false x)))) \<and>
         ((\<exists>idx\<in>set (stack_index_eq (df x) ''FALSE''). fst idx + 1 \<noteq> 17) \<longrightarrow>
            fst (mark_false x) = Some (TypeError false_msg) \<and>
            \<not> file_on_disk (snd (mark_false x)))"
proof (intro conjI impI)
  let ?idxs = "stack_index_eq (df x) ''FALSE''"
  have col: "snd idx < 18278" if "idx \<in> set ?idxs" for idx
  proof -
    from that have "idx \<in> {(r, c). r < length (df x) \<and> c < len_columns (df x) \<and>
        cell_at (df x) r c = Text ''FALSE''}"
      unfolding set_stack_index_eq .
    with assms(1) show ?thesis by auto
  qed
  {
    assume all: "\<forall>idx\<in>set ?idxs. fst idx + 1 = 17"
    let ?I = "\<lambda>y::excel. file_on_disk y"
    have run: "fst (for_each mark_false_idx ?idxs x) = None \<and>
          ?I (snd (for_each mark_false_idx ?idxs x)) \<and>
          highlighted (snd (for_each mark_false_idx ?idxs x)) =
            highlighted x \<union> (\<Union>idx\<in>set ?idxs. {(snd idx + 1, fst idx + 1)})"
    proof -
      have c: "fst (for_each mark_false_idx ?idxs x) = None \<and> ?I (snd (for_each mark_false_idx ?idxs x))"
      proof (rule for_each_complete [where I = ?I])
        fix a s assume "a \<in> set ?idxs" "?I s"
        then show "fst (mark_false_idx a s) = None \<and> ?I (snd (mark_false_idx a s))"
          using mark_false_idx_status_row [of a s] all col by (simp add: highlight_cell_def)
      qed (rule assms(2))
      have "True \<and> highlighted (snd (for_each mark_false_idx ?idxs x)) =
            highlighted x \<union> (\<Union>idx\<in>set ?idxs. {(snd idx + 1, fst idx + 1)})"
      proof (rule for_each_collect [where I = "\<lambda>_. True" and H = highlighted])
        fix a s assume "a \<in> set ?idxs"
        then show "True \<and> highlighted (snd (mark_false_idx a s)) = highlighted s \<union> {(snd a + 1, fst a + 1)}"
          using mark_false_idx_status_row [of a s] all col by (simp add: highlight_cell_def)
      qed (use c in simp_all)
      with c show ?thesis by simp
    qed
    from run show "fst (mark_false x) = None" by (simp add: mark_false_def)
    from run show "file_on_disk (snd (mark_false x))" by (simp add: mark_false_def)
    from run show "\<forall>idx\<in>set ?idxs. (snd idx + 1, fst idx + 1) \<in> highlighted (snd (mark_false x))"
      by (auto simp: mark_false_def)
  }
  {
    assume "\<exists>idx\<in>set ?idxs. fst idx + 1 \<noteq> 17"
    then obtain bad where bad: "bad \<in> set ?idxs" "fst bad + 1 \<noteq> 17" by blast
    let ?I = "\<lambda>y::excel. file_on_disk y"
    let ?F = "\<lambda>y::excel. \<not> file_on_disk y"
    have step: "fst (mark_false_idx a s) = None \<and> ?I (snd (mark_false_idx a s)) \<or>
                fst (mark_false_idx a s) = Some (TypeError false_msg) \<and> ?F (snd (mark_false_idx a s))"
      if "a \<in> set ?idxs" "?I s" for a s
    proof (cases "fst a + 1 = 17")
      case True
      then show ?thesis
        using mark_false_idx_status_row [of a s] col that by (simp add: highlight_cell_def)
    next
      case False
      then show ?thesis using mark_false_idx_other_row [of a s] that by simp
    qed
    have out: "fst (for_each mark_false_idx ?idxs x) = None \<and> ?I (snd (for_each mark_false_idx ?idxs x)) \<or>
          fst (for_each mark_false_idx ?idxs x) = Some (TypeError false_msg) \<and>
          ?F (snd (for_each mark_false_idx ?idxs x))"
      by (rule for_each_outcome [where I = ?I and F = ?F]) (use step assms(2) in blast)+
    have "fst (for_each mark_false_idx ?idxs x) \<noteq> None"
    proof (rule for_each_error [where I = ?I and a = bad])
      show "bad \<in> set ?idxs" by (rule bad(1))
      show "fst (mark_false_idx bad s) \<noteq> None" if "?I s" for s
        using mark_false_idx_other_row [OF bad(2) that] by simp
      show "?I (snd (mark_false_idx b s))"
        if "b \<in> set ?idxs" "?I s" "fst (mark_false_idx b s) = None" for b s
        using step [OF that(1,2)] that(3) by simp
    qed (rule assms(2))
    with out show "fst (mark_false x) = Some (TypeError false_msg)" by (simp add: mark_false_def)
    from out \<open>fst (for_each mark_false_idx ?idxs x) \<noteq> None\<close>
    show "\<not> file_on_disk (snd (mark_false x))" by (simp add: mark_false_def)
  }
qed

theorem mark_false_status_row_witness:
  "fst (mark_false status_row_false) = None \<and>
   file_on_disk (snd (mark_false status_row_false)) \<and>
   (2, 17) \<in> highlighted (snd (mark_false status_row_false)) \<and>
   fst (mark_false row_above_false) = Some (TypeError false_msg) \<and>
   \<not> file_on_disk (snd (mark_false row_above_false))"
proof -
  have n: "len_columns (df status_row_false) \<le> 18278" "len_columns (df row_above_false) \<le> 18278"
    by (simp_all add: status_row_false_def row_above_false_def blank_row_def len_columns_def)
  have f: "file_on_disk status_row_false" "file_on_disk row_above_false"
    by (simp_all add: status_row_false_def row_above_false_def)
  show ?thesis
    using mark_false_status_row [OF n(1) f(1)] mark_false_status_row [OF n(2) f(2)]
    by (simp add: status_row_false_idx row_above_false_idx numeral_2_eq_2)
qed

subsection \<open>The field conversion of the loader\<close>

text \<open>
  C10: every string \<open>int()\<close> accepts is accepted by \<open>float()\<close>, so the conversion
  of a field with its three branches equals the conversion with two branches, and it
  never yields an \<open>int\<close>.
\<close>

theorem integer_branch_unreachable:
  "(int_literal item \<longrightarrow> float_literal item) \<and>
   convert_item float_value int_value item = convert_item_two_branch float_value item \<and>
   convert_item float_value int_value item \<noteq> IntItem i"
  using int_literal_float_literal [of item]
  by (auto simp: convert_item_def convert_item_two_branch_def py_float_def py_int_def)

theorem integer_branch_unreachable_witness:
  "int_literal ''12'' \<and> float_literal ''12'' \<and>
   convert_item (\<lambda>s. 12 :: real) (\<lambda>s. 12) ''12'' = FloatItem 12"
proof -
  have "int_literal ''12''"
    by (simp add: int_literal_def strip_def py_isspace_def is_digit_def)
  then show ?thesis
    using integer_branch_unreachable [of "''12''" "\<lambda>s. 12 :: real" "\<lambda>s. 12" 0]
    by (simp add: convert_item_two_branch_def)
qed

end
